theory Spec2Isabelle
  imports Main
begin

section \<open>Exceptions\<close>

text \<open>
  The Python exceptions that the modelled code can raise. \<open>ValueError\<close> is raised by the
  key helpers for an identifier that is not in the registry, by \<open>datetime.fromisoformat\<close> on a
  malformed string and by \<open>datetime.fromtimestamp\<close> outside the years 1..9999; \<open>TypeError\<close> by
  \<open>datetime.fromisoformat(None)\<close> and \<open>float(None)\<close>; \<open>DataError\<close> by the store client when it
  is handed \<open>None\<close> as a value; \<open>ResponseError\<close> by the store when \<open>HINCRBY\<close> meets a field
  that does not hold an integer; \<open>AttributeError\<close> by an attribute read on a payload of the
  wrong shape.
\<close>

datatype error = ValueError | TypeError | DataError | ResponseError | AttributeError

section \<open>Player registry (app/game_state/utils.py, class PlayerRegistry)\<close>

text \<open>
  The two class-level dictionaries. A Python dictionary keeps its keys in insertion order,
  and \<open>players_for_team\<close> and \<open>players_for_match\<close> return lists in that order, so a dictionary
  is an association list: assignment replaces the value of a key in place or appends a new
  key, \<open>pop\<close> removes the key, \<open>get\<close> reads it. The inner dictionary
  \<open>{"match_id": m, "team_id": t}\<close> is the pair \<open>(m, t)\<close>.
\<close>

fun dict_set :: "'k \<Rightarrow> 'v \<Rightarrow> ('k \<times> 'v) list \<Rightarrow> ('k \<times> 'v) list" where
  "dict_set k v [] = [(k, v)]"
| "dict_set k v (kv # kvs) = (if fst kv = k then (k, v) # kvs else kv # dict_set k v kvs)"

definition dict_pop :: "'k \<Rightarrow> ('k \<times> 'v) list \<Rightarrow> ('k \<times> 'v) list" where
  "dict_pop k kvs = filter (\<lambda>kv. fst kv \<noteq> k) kvs"

definition dict_get :: "('k \<times> 'v) list \<Rightarrow> 'k \<Rightarrow> 'v option" where
  "dict_get kvs k = map_of kvs k"

record PlayerRegistry =
  reg_matches :: "(string \<times> (string \<times> string)) list"
  reg_teams :: "(string \<times> string) list"

definition register_player :: "string \<Rightarrow> string \<Rightarrow> string \<Rightarrow> PlayerRegistry \<Rightarrow> PlayerRegistry" where
  "register_player player_id match_id team_id r =
     r\<lparr>reg_matches := dict_set player_id (match_id, team_id) (reg_matches r),
       reg_teams := dict_set team_id match_id (reg_teams r)\<rparr>"

text \<open>
  The lookups take the identifier as the caller has it, which may be \<open>None\<close>
  (\<open>killer_id or payload.victim_id\<close>, \<open>payload.killer_team_id\<close>, \<open>event.match_id\<close>); \<open>None\<close> is
  never a key, so \<open>.get\<close> answers \<open>None\<close> for it.
\<close>

definition get_match_id_for_player :: "PlayerRegistry \<Rightarrow> string option \<Rightarrow> string option" where
  "get_match_id_for_player r player_id =
     (case player_id of None \<Rightarrow> None
      | Some p \<Rightarrow> (case dict_get (reg_matches r) p of None \<Rightarrow> None | Some data \<Rightarrow> Some (fst data)))"

definition get_match_id_for_team :: "PlayerRegistry \<Rightarrow> string option \<Rightarrow> string option" where
  "get_match_id_for_team r team_id =
     (case team_id of None \<Rightarrow> None | Some t \<Rightarrow> dict_get (reg_teams r) t)"

definition get_team_id :: "PlayerRegistry \<Rightarrow> string option \<Rightarrow> string option" where
  "get_team_id r player_id =
     (case player_id of None \<Rightarrow> None
      | Some p \<Rightarrow> (case dict_get (reg_matches r) p of None \<Rightarrow> None | Some data \<Rightarrow> Some (snd data)))"

definition players_for_team :: "PlayerRegistry \<Rightarrow> string option \<Rightarrow> string list" where
  "players_for_team r team_id =
     map fst (filter (\<lambda>item. Some (snd (snd item)) = team_id) (reg_matches r))"

definition players_for_match :: "PlayerRegistry \<Rightarrow> string option \<Rightarrow> string list" where
  "players_for_match r match_id =
     map fst (filter (\<lambda>item. Some (fst (snd item)) = match_id) (reg_matches r))"

definition unregister_player :: "string \<Rightarrow> PlayerRegistry \<Rightarrow> PlayerRegistry" where
  "unregister_player player_id r = r\<lparr>reg_matches := dict_pop player_id (reg_matches r)\<rparr>"

definition unregister_team :: "string \<Rightarrow> PlayerRegistry \<Rightarrow> PlayerRegistry" where
  "unregister_team team_id r = r\<lparr>reg_teams := dict_pop team_id (reg_teams r)\<rparr>"

section \<open>Timestamps and their rendering\<close>

text \<open>
  A timestamp is a number of whole seconds since the epoch. Python holds it in a float;
  on whole seconds of this size float comparison and subtraction are exact, so an \<open>int\<close>
  carries them. Fractions of a second are outside the model.

  \<open>strftime_utc t\<close> is \<open>datetime.fromtimestamp(t, UTC).strftime("%Y-%m-%d %H:%M:%S")\<close>: the
  proleptic Gregorian date of day \<open>t div 86400\<close> and the time of day \<open>t mod 86400\<close>.
  \<open>fromtimestamp\<close> raises outside the years 1..9999. The year is written with four digits.
\<close>

definition civil_from_days :: "int \<Rightarrow> int \<times> int \<times> int" where
  "civil_from_days days =
     (let z = days + 719468;
          era = z div 146097;
          doe = z - era * 146097;
          yoe = (doe - doe div 1460 + doe div 36524 - doe div 146096) div 365;
          doy = doe - (365 * yoe + yoe div 4 - yoe div 100);
          mp = (5 * doy + 2) div 153;
          d = doy - (153 * mp + 2) div 5 + 1;
          m = (if mp < 10 then mp + 3 else mp - 9);
          y = yoe + era * 400 + (if m \<le> 2 then 1 else 0)
      in (y, m, d))"

definition digit :: "int \<Rightarrow> char" where
  "digit n = ''0123456789'' ! nat (n mod 10)"

definition dec2 :: "int \<Rightarrow> string" where
  "dec2 n = [digit (n div 10), digit n]"

definition dec4 :: "int \<Rightarrow> string" where
  "dec4 n = [digit (n div 1000), digit (n div 100), digit (n div 10), digit n]"

definition utc_year :: "int \<Rightarrow> int" where
  "utc_year t = fst (civil_from_days (t div 86400))"

definition utc_string :: "int \<Rightarrow> string" where
  "utc_string t =
     (case civil_from_days (t div 86400) of (y, m, d) \<Rightarrow>
        (let secs = t mod 86400
         in dec4 y @ ''-'' @ dec2 m @ ''-'' @ dec2 d @ '' '' @
            dec2 (secs div 3600) @ '':'' @ dec2 (secs mod 3600 div 60) @ '':'' @ dec2 (secs mod 60)))"

definition datetime_range :: "int \<Rightarrow> bool" where
  "datetime_range t = (1 \<le> utc_year t \<and> utc_year t \<le> 9999)"

definition strftime_utc :: "int \<Rightarrow> error + string" where
  "strftime_utc t = (if datetime_range t then Inr (utc_string t) else Inl ValueError)"

section \<open>Kill streaks (app/game_state/utils.py, calculate_kill_streaks)\<close>

text \<open>
  The inner \<^verbatim>\<open>while\<close> loop: \<open>current_streak\<close> grows by \<open>kill_timestamps[j]\<close> while \<open>j\<close> is in
  range, the gap to the last kill of the streak is at most the window and the streak is
  shorter than five. It returns the streak and the index it stopped at.
\<close>

function streak_extend :: "int list \<Rightarrow> int \<Rightarrow> int list \<Rightarrow> nat \<Rightarrow> int list \<times> nat" where
  "streak_extend kill_timestamps streak_window current_streak j =
     (if j < length kill_timestamps
         \<and> kill_timestamps ! j - last current_streak \<le> streak_window
         \<and> length current_streak < 5
      then streak_extend kill_timestamps streak_window (current_streak @ [kill_timestamps ! j]) (Suc j)
      else (current_streak, j))"
  by pat_completeness auto
termination
  by (relation "measure (\<lambda>(ts, w, cur, j). length ts - j)") auto

text \<open>
  What one streak appends to \<open>streaks\<close>: nothing for a single kill; otherwise the time of
  the last kill is rendered first (which can raise) and the label follows the length.
\<close>

definition streak_label :: "int list \<Rightarrow> error + string list" where
  "streak_label current_streak =
     (let streak_length = length current_streak in
      if streak_length \<ge> 2 then
        (case strftime_utc (last current_streak) of
           Inl e \<Rightarrow> Inl e
         | Inr formatted_timestamp \<Rightarrow>
             if streak_length = 2 then Inr [''Double Kill at '' @ formatted_timestamp]
             else if streak_length = 3 then Inr [''Triple Kill at '' @ formatted_timestamp]
             else if streak_length = 4 then Inr [''Quadra Kill at '' @ formatted_timestamp]
             else if streak_length = 5 then Inr [''Penta Kill at '' @ formatted_timestamp]
             else Inr [])
      else Inr [])"

lemma streak_extend_index: "j \<le> snd (streak_extend ts w cur j)"
proof (induction ts w cur j rule: streak_extend.induct)
  case (1 ts w cur j)
  show ?case
  proof (cases "j < length ts \<and> ts ! j - last cur \<le> w \<and> length cur < 5")
    case True
    with "1.IH" have "Suc j \<le> snd (streak_extend ts w (cur @ [ts ! j]) (Suc j))"
      by blast
    with True show ?thesis
      by (subst streak_extend.simps) simp
  next
    case False
    then show ?thesis
      by (subst streak_extend.simps) auto
  qed
qed

text \<open>The outer \<^verbatim>\<open>while\<close> loop, from index \<open>i\<close> with the labels found so far.\<close>

function streaks_from :: "int list \<Rightarrow> int \<Rightarrow> nat \<Rightarrow> string list \<Rightarrow> error + string list" where
  "streaks_from kill_timestamps streak_window i streaks =
     (if i < length kill_timestamps then
        (case streak_extend kill_timestamps streak_window [kill_timestamps ! i] (Suc i) of
           (current_streak, j) \<Rightarrow>
             (case streak_label current_streak of
                Inl e \<Rightarrow> Inl e
              | Inr labels \<Rightarrow> streaks_from kill_timestamps streak_window j (streaks @ labels)))
      else Inr streaks)"
  by pat_completeness auto
termination
proof (relation "measure (\<lambda>(ts, w, i, acc). length ts - i)", goal_cases)
  case 1
  show ?case by simp
next
  case (2 ts w i streaks x y b)
  then have "Suc i \<le> y"
    using streak_extend_index [of "Suc i" ts w "[ts ! i]"] by (metis snd_conv)
  with 2 show ?case by simp
qed

definition calculate_kill_streaks :: "int list \<Rightarrow> int \<Rightarrow> error + string list" where
  "calculate_kill_streaks kill_timestamps streak_window =
     streaks_from kill_timestamps streak_window 0 []"







section \<open>Killing sprees (app/game_state/utils.py, calculate_max_killing_spree)\<close>

text \<open>
  An entry of the kill history is the dictionary \<open>{"timestamp": ts, "kill_type": kt}\<close> that
  \<open>add_kill_history\<close> stores.
\<close>

record kill =
  kill_timestamp :: int
  kill_type :: string

text \<open>
  The inner \<^verbatim>\<open>while\<close> loop: it steps \<open>death_index\<close> over every death that is not later than
  the kill, and each step records the streak into \<open>max_streak\<close> and resets it.
  The result is \<open>(death_index, streak, max_streak)\<close>.
\<close>

function advance_deaths :: "int \<Rightarrow> int list \<Rightarrow> nat \<Rightarrow> int \<Rightarrow> int \<Rightarrow> nat \<times> int \<times> int" where
  "advance_deaths kill death_history death_index streak max_streak =
     (if death_index < length death_history \<and> kill \<ge> death_history ! death_index
      then advance_deaths kill death_history (Suc death_index) 0 (max max_streak streak)
      else (death_index, streak, max_streak))"
  by pat_completeness auto
termination
  by (relation "measure (\<lambda>(k, dh, di, s, m). length dh - di)") auto

text \<open>The \<^verbatim>\<open>for\<close> loop over the human kills, and the final \<open>max\<close>.\<close>

fun spree_loop :: "int list \<Rightarrow> int list \<Rightarrow> nat \<Rightarrow> int \<Rightarrow> int \<Rightarrow> int" where
  "spree_loop [] death_history death_index streak max_streak = max max_streak streak"
| "spree_loop (kill # human_kills) death_history death_index streak max_streak =
     (case advance_deaths kill death_history death_index streak max_streak of
        (death_index', streak', max_streak') \<Rightarrow>
          spree_loop human_kills death_history death_index'
            (if death_index' < length death_history then streak' + 1 else streak') max_streak')"

definition human_kills_of :: "kill list \<Rightarrow> int list" where
  "human_kills_of kill_history =
     map kill_timestamp (filter (\<lambda>k. kill_type k = ''human'') kill_history)"

definition calculate_max_killing_spree :: "kill list \<Rightarrow> int list \<Rightarrow> int" where
  "calculate_max_killing_spree kill_history death_history =
     spree_loop (human_kills_of kill_history) death_history 0 0 0"

definition max_killing_spree_label :: "int \<Rightarrow> string option" where
  "max_killing_spree_label max_killing_spree =
     (let n = (if max_killing_spree > 7 then 7 else max_killing_spree) in
      if n = 3 then Some ''Killing Spree''
      else if n = 4 then Some ''Rampage''
      else if n = 5 then Some ''Unstoppable''
      else if n = 6 then Some ''Dominating''
      else if n = 7 then Some ''Godlike''
      else None)"



section \<open>The store\<close>

text \<open>
  The values a processor hands to the store client and reads back. The client writes an
  \<open>int\<close> as its decimal text, a \<open>float\<close> as its \<open>repr\<close> (a timestamp \<open>t\<close> becomes \<open>t.0\<close>), a
  \<open>str\<close> as it is, and refuses \<open>None\<close> with \<open>DataError\<close>; \<open>RJson j\<close> is the text \<open>json.dumps\<close>
  gives for \<open>j\<close>. A stored value keeps the constructor it was written with, so that the
  integer \<open>-1\<close> (text \<open>-1\<close>) and the timestamp \<open>-1\<close> (text \<open>-1.0\<close>) stay apart.
\<close>

datatype json = JNull | JBool bool | JInt int | JStr string | JList "json list" | JObj "(string \<times> json) list"

datatype rval = RInt int | RFloat int | RStr string | RJson json | RNone

text \<open>
  The store holds the aggregate hashes (by key and field), the kill-history and
  death-history sorted sets (by key, in \<open>ZRANGE\<close> order) and the raw event hashes that the
  ingress consumer wrote (by key, as \<open>HGETALL\<close> returns them: text fields). The registry is
  the process-wide \<open>PlayerRegistry\<close>. Hashes and sorted sets are kept in maps of their own:
  with the key schema below a hash key and a sorted-set key coincide only for an identifier
  that itself ends in \<open>:kill_history\<close> or \<open>:death_history\<close>.
\<close>

record game_state =
  hashes :: "string \<Rightarrow> string \<Rightarrow> rval option"
  kill_zsets :: "string \<Rightarrow> kill list"
  death_zsets :: "string \<Rightarrow> int list"
  raw_events :: "string \<Rightarrow> (string \<times> string) list"
  registry :: PlayerRegistry

definition init_state :: game_state where
  "init_state = \<lparr>hashes = (\<lambda>key field. None), kill_zsets = (\<lambda>key. []), death_zsets = (\<lambda>key. []),
                 raw_events = (\<lambda>key. []), registry = \<lparr>reg_matches = [], reg_teams = []\<rparr>\<rparr>"

text \<open>
  A coroutine of the source is a step: it takes the state and returns the state it leaves
  and the exception it raised, if any. Nothing is rolled back when a step raises: the writes
  made before the exception stay.
\<close>

type_synonym step = "game_state \<Rightarrow> game_state \<times> error option"

definition step_ok :: step where
  "step_ok s = (s, None)"

definition step_raise :: "error \<Rightarrow> step" where
  "step_raise e s = (s, Some e)"

definition step_seq :: "step \<Rightarrow> step \<Rightarrow> step" where
  "step_seq f g s = (case f s of (s', None) \<Rightarrow> g s' | (s', Some e) \<Rightarrow> (s', Some e))"

definition step_read :: "(game_state \<Rightarrow> error + 'a) \<Rightarrow> ('a \<Rightarrow> step) \<Rightarrow> step" where
  "step_read r f s = (case r s of Inl e \<Rightarrow> (s, Some e) | Inr a \<Rightarrow> f a s)"

fun for_each :: "'a list \<Rightarrow> ('a \<Rightarrow> step) \<Rightarrow> step" where
  "for_each [] f s = (s, None)"
| "for_each (x # xs) f s = (case f x s of (s', None) \<Rightarrow> for_each xs f s' | (s', Some e) \<Rightarrow> (s', Some e))"

subsection \<open>Store operations\<close>

text \<open>
  \<open>HSET key mapping\<close>: the client raises \<open>DataError\<close> for no pairs and for a \<open>None\<close> value
  before anything is sent; otherwise the fields of the mapping are set and the others stay.
\<close>

definition hset :: "string \<Rightarrow> (string \<times> rval) list \<Rightarrow> step" where
  "hset key mapping s =
     (if mapping = [] \<or> RNone \<in> snd ` set mapping then (s, Some DataError)
      else (s\<lparr>hashes := (hashes s)(key := fold (\<lambda>(field, v) h. h(field \<mapsto> v)) mapping (hashes s key))\<rparr>, None))"

definition hget :: "string \<Rightarrow> string \<Rightarrow> game_state \<Rightarrow> error + rval option" where
  "hget key field s = Inr (hashes s key field)"

text \<open>
  \<open>HINCRBY key field amount\<close>: \<open>None\<close> as the amount is refused by the client; a missing field
  counts as 0; a field that does not hold an integer is refused by the store. The fields
  the processors increment are only ever written as integers.
\<close>

definition hincrby :: "string \<Rightarrow> string \<Rightarrow> int option \<Rightarrow> step" where
  "hincrby key field amount s =
     (case amount of
        None \<Rightarrow> (s, Some DataError)
      | Some n \<Rightarrow>
          (case hashes s key field of
             None \<Rightarrow> (s\<lparr>hashes := (hashes s)(key := (hashes s key)(field \<mapsto> RInt n))\<rparr>, None)
           | Some (RInt m) \<Rightarrow> (s\<lparr>hashes := (hashes s)(key := (hashes s key)(field \<mapsto> RInt (m + n)))\<rparr>, None)
           | Some v \<Rightarrow> (s, Some ResponseError)))"

text \<open>
  Sorted sets. A member of a kill history is the JSON text of
  \<open>{"timestamp": t, "kill_type": k}\<close> with score \<open>t\<close>; \<open>ZADD\<close> of a member that is there changes
  nothing (its score is the same). \<open>ZRANGE\<close> orders by score and, for equal scores, by the
  member's text, which for equal timestamps is the order of the kill type followed by the
  closing \<open>"}\<close>. A member of a death history is the text of the timestamp, with the
  timestamp as score.
\<close>

fun text_less :: "string \<Rightarrow> string \<Rightarrow> bool" where
  "text_less [] [] = False"
| "text_less [] (b # bs) = True"
| "text_less (a # as) [] = False"
| "text_less (a # as) (b # bs) = ((of_char a :: nat) < of_char b \<or> (a = b \<and> text_less as bs))"

definition kill_member_less :: "kill \<Rightarrow> kill \<Rightarrow> bool" where
  "kill_member_less a b =
     (kill_timestamp a < kill_timestamp b
      \<or> (kill_timestamp a = kill_timestamp b
          \<and> text_less (kill_type a @ [CHR 0x22, CHR ''}'']) (kill_type b @ [CHR 0x22, CHR ''}''])))"

fun zinsert :: "('a \<Rightarrow> 'a \<Rightarrow> bool) \<Rightarrow> 'a \<Rightarrow> 'a list \<Rightarrow> 'a list" where
  "zinsert lt x [] = [x]"
| "zinsert lt x (y # ys) = (if lt x y then x # y # ys else y # zinsert lt x ys)"

definition zadd_kill :: "string \<Rightarrow> kill \<Rightarrow> step" where
  "zadd_kill key member s =
     (if member \<in> set (kill_zsets s key) then (s, None)
      else (s\<lparr>kill_zsets := (kill_zsets s)(key := zinsert kill_member_less member (kill_zsets s key))\<rparr>, None))"

definition zadd_death :: "string \<Rightarrow> int \<Rightarrow> step" where
  "zadd_death key timestamp s =
     (if timestamp \<in> set (death_zsets s key) then (s, None)
      else (s\<lparr>death_zsets := (death_zsets s)(key := zinsert (<) timestamp (death_zsets s key))\<rparr>, None))"

definition add_kill_history :: "string \<Rightarrow> int \<Rightarrow> string \<Rightarrow> step" where
  "add_kill_history history_key timestamp kt =
     zadd_kill history_key \<lparr>kill_timestamp = timestamp, kill_type = kt\<rparr>"

subsection \<open>Settings and key schema (app/settings.py, app/game_state/utils.py)\<close>

definition redis_game_events_namespace :: string where
  "redis_game_events_namespace = ''game_events''"

definition redis_game_state_namespace :: string where
  "redis_game_state_namespace = ''game_state''"

definition kill_streak_time_window :: int where
  "kill_streak_time_window = 10"

text \<open>An f-string renders \<open>None\<close> as the text \<open>None\<close>.\<close>

definition py_str :: "string option \<Rightarrow> string" where
  "py_str x = (case x of None \<Rightarrow> ''None'' | Some v \<Rightarrow> v)"

definition get_game_state_key :: "string option \<Rightarrow> string" where
  "get_game_state_key match_id = redis_game_state_namespace @ '':game:'' @ py_str match_id"

definition get_team_state_key :: "string option \<Rightarrow> string option \<Rightarrow> game_state \<Rightarrow> error + string" where
  "get_team_state_key team_id match_id s =
     (case (case match_id of None \<Rightarrow> get_match_id_for_team (registry s) team_id | Some m \<Rightarrow> Some m) of
        None \<Rightarrow> Inl ValueError
      | Some m \<Rightarrow> Inr (redis_game_state_namespace @ '':game:'' @ m @ '':team:'' @ py_str team_id))"

definition get_player_state_key :: "string \<Rightarrow> string option \<Rightarrow> game_state \<Rightarrow> error + string" where
  "get_player_state_key player_id match_id s =
     (case (case match_id of None \<Rightarrow> get_match_id_for_player (registry s) (Some player_id) | Some m \<Rightarrow> Some m) of
        None \<Rightarrow> Inl ValueError
      | Some m \<Rightarrow> Inr (redis_game_state_namespace @ '':game:'' @ m @ '':player:'' @ player_id))"

definition get_player_kill_history_key :: "string \<Rightarrow> game_state \<Rightarrow> error + string" where
  "get_player_kill_history_key player_id s =
     (case get_match_id_for_player (registry s) (Some player_id) of
        None \<Rightarrow> Inl ValueError
      | Some m \<Rightarrow> Inr (redis_game_state_namespace @ '':game:'' @ m @ '':player:'' @ player_id @ '':kill_history''))"

definition get_player_death_history_key :: "string \<Rightarrow> game_state \<Rightarrow> error + string" where
  "get_player_death_history_key player_id s =
     (case get_match_id_for_player (registry s) (Some player_id) of
        None \<Rightarrow> Inl ValueError
      | Some m \<Rightarrow> Inr (redis_game_state_namespace @ '':game:'' @ m @ '':player:'' @ player_id @ '':death_history''))"

section \<open>Events (app/game_event/enum.py, app/game_event/models.py)\<close>

datatype EVENT_TYPE = MATCH_START | MINION_KILL | PLAYER_KILL | DRAGON_KILL | TURRET_DESTROY | MATCH_END | UNKNOWN

record MatchPlayer =
  player_id :: string
  gold :: int
  alive :: bool
  name :: string

record MatchTeam =
  team_id :: string
  players :: "MatchPlayer list"

record GameMetadata =
  start_time :: string
  title :: string
  series_current :: int
  series_max :: int
  series_type :: string

record MatchStartPayload =
  fixture :: GameMetadata
  teams :: "MatchTeam list"

record MinionKillPayload =
  player_id :: string
  gold_granted :: "int option"

record PlayerKillPayload =
  killer_id :: "string option"
  victim_id :: "string option"
  gold_granted :: "int option"
  assistants :: "string list option"
  assist_gold :: "int option"

record DragonKillPayload =
  killer_id :: string
  dragon_type :: "string option"
  gold_granted :: "int option"

record TurretDestroyPayload =
  killer_id :: "string option"
  killer_team_id :: "string option"
  turret_tier :: "int option"
  turret_lane :: "string option"
  player_gold_granted :: "int option"
  team_gold_granted :: "int option"

record MatchEndPayload =
  winning_team_id :: string

text \<open>The resolved payload of an event; \<open>NoPayload\<close> is Python's \<open>None\<close>.\<close>

datatype payload =
    MatchStartP MatchStartPayload
  | MinionKillP MinionKillPayload
  | PlayerKillP PlayerKillPayload
  | DragonKillP DragonKillPayload
  | TurretDestroyP TurretDestroyPayload
  | MatchEndP MatchEndPayload
  | NoPayload

record GameEvent =
  match_id :: "string option"
  event_type :: EVENT_TYPE
  payload :: payload
  timestamp :: "string option"

section \<open>Library functions\<close>

text \<open>
  What the processors call in the standard library, in pydantic and in \<open>json\<close>, as
  parameters of the model:
  \<^item> \<open>fromisoformat t\<close> is \<open>datetime.fromisoformat(t).timestamp()\<close>, \<open>None\<close> when the text is
    not an ISO-8601 date (\<open>ValueError\<close>);
  \<^item> \<open>py_float t\<close> is \<open>float(t)\<close> on a text, \<open>None\<close> for \<open>ValueError\<close>;
  \<^item> \<open>json_loads t\<close> is \<open>json.loads(t)\<close>, \<open>None\<close> for \<open>JSONDecodeError\<close>;
  \<^item> \<open>model_validate ty j\<close> builds the payload model of event type \<open>ty\<close> from the decoded
    payload, \<open>Inl\<close> the exception when it cannot.
\<close>

record lib =
  fromisoformat :: "string \<Rightarrow> int option"
  py_float :: "string \<Rightarrow> int option"
  json_loads :: "string \<Rightarrow> json option"
  model_validate :: "EVENT_TYPE \<Rightarrow> json \<Rightarrow> error + payload"

text \<open>
  \<open>datetime.fromisoformat(event.timestamp).timestamp()\<close>: \<open>TypeError\<close> for \<open>None\<close>,
  \<open>ValueError\<close> for a text that is no date.
\<close>

definition event_timestamp :: "lib \<Rightarrow> string option \<Rightarrow> game_state \<Rightarrow> error + int" where
  "event_timestamp L ts s =
     (case ts of
        None \<Rightarrow> Inl TypeError
      | Some t \<Rightarrow> (case fromisoformat L t of None \<Rightarrow> Inl ValueError | Some x \<Rightarrow> Inr x))"

section \<open>Processors (app/game_state/processors.py)\<close>

subsection \<open>MatchStartProcessor\<close>

definition opt_str :: "string option \<Rightarrow> rval" where
  "opt_str x = (case x of None \<Rightarrow> RNone | Some v \<Rightarrow> RStr v)"

definition match_metadata :: "GameEvent \<Rightarrow> MatchStartPayload \<Rightarrow> (string \<times> rval) list" where
  "match_metadata event pl =
     [(''match_id'', opt_str (match_id event)),
      (''start_time'', RStr (start_time (fixture pl))),
      (''title'', RStr (title (fixture pl))),
      (''series_current'', RInt (series_current (fixture pl))),
      (''series_max'', RInt (series_max (fixture pl))),
      (''series_type'', RStr (series_type (fixture pl))),
      (''teams'', RJson (JList (map (\<lambda>team.
           JObj [(''team_id'', JStr (team_id team)),
                 (''players'', JList (map (\<lambda>player. JStr (MatchPlayer.player_id player)) (players team)))])
         (teams pl)))),
      (''first_blood'', RInt (- 1))]"

definition team_metadata :: "(string \<times> rval) list" where
  "team_metadata = [(''dragon_kills'', RInt 0), (''tower_kills'', RInt 0)]"

definition player_metadata :: "MatchTeam \<Rightarrow> MatchPlayer \<Rightarrow> (string \<times> rval) list" where
  "player_metadata team player =
     [(''player_id'', RStr (MatchPlayer.player_id player)),
      (''gold'', RInt (gold player)),
      (''alive'', RInt (if alive player then 1 else 0)),
      (''name'', RStr (name player)),
      (''minion_kills'', RInt 0),
      (''human_kills'', RInt 0),
      (''human_kills_assists'', RInt 0),
      (''team_members'', RJson (JList (map JStr
         (filter (\<lambda>p. p \<noteq> MatchPlayer.player_id player) (map MatchPlayer.player_id (players team))))))]"

definition register_step :: "string \<Rightarrow> string \<Rightarrow> string \<Rightarrow> step" where
  "register_step p m t s = (s\<lparr>registry := register_player p m t (registry s)\<rparr>, None)"

text \<open>
  The match hash is written first. With no \<open>matchID\<close> its mapping holds \<open>None\<close> under
  \<open>match_id\<close>, the client raises and nothing below runs; so the loops are only reached with
  a match id, which is what \<open>register_player\<close> is declared to take.
\<close>

definition MatchStartProcessor :: "GameEvent \<Rightarrow> MatchStartPayload \<Rightarrow> step" where
  "MatchStartProcessor event pl =
     step_seq (hset (get_game_state_key (match_id event)) (match_metadata event pl))
       (case match_id event of
          None \<Rightarrow> step_ok
        | Some m \<Rightarrow>
            step_seq
              (for_each (teams pl) (\<lambda>team.
                 step_read (get_team_state_key (Some (team_id team)) (Some m)) (\<lambda>team_key.
                   hset team_key team_metadata)))
              (for_each (teams pl) (\<lambda>team.
                 for_each (players team) (\<lambda>player.
                   step_seq (register_step (MatchPlayer.player_id player) m (team_id team))
                     (step_read (get_player_state_key (MatchPlayer.player_id player) None) (\<lambda>player_key.
                        hset player_key (player_metadata team player)))))))"

subsection \<open>MinionKillProcessor\<close>

definition MinionKillProcessor :: "lib \<Rightarrow> GameEvent \<Rightarrow> MinionKillPayload \<Rightarrow> step" where
  "MinionKillProcessor L event pl =
     (case MinionKillPayload.gold_granted pl of
        None \<Rightarrow> step_ok
      | Some g \<Rightarrow>
          step_read (get_player_state_key (MinionKillPayload.player_id pl) None) (\<lambda>player_key.
          step_seq (hincrby player_key ''gold'' (Some g))
         (step_seq (hincrby player_key ''minion_kills'' (Some 1))
         (step_read (get_player_kill_history_key (MinionKillPayload.player_id pl)) (\<lambda>player_kill_history_key.
          step_read (event_timestamp L (timestamp event)) (\<lambda>ts.
            add_kill_history player_kill_history_key ts ''minion''))))))"

subsection \<open>PlayerKillProcessor\<close>

text \<open>\<open>killer_id or payload.victim_id\<close>: the killer unless it is \<open>None\<close> or the empty text.\<close>

definition py_or :: "string option \<Rightarrow> string option \<Rightarrow> string option" where
  "py_or a b = (case a of None \<Rightarrow> b | Some x \<Rightarrow> if x = [] then b else Some x)"

text \<open>
  \<open>first_blood == "-1"\<close> on what \<open>HGET\<close> returned: true for the integer \<open>-1\<close> that the match
  start wrote and for the text \<open>-1\<close>; a timestamp reads back as \<open>t.0\<close>, never as \<open>-1\<close>.
\<close>

definition is_sentinel :: "rval option \<Rightarrow> bool" where
  "is_sentinel v = (v = Some (RInt (- 1)) \<or> v = Some (RStr ''-1''))"

text \<open>\<open>float(first_blood)\<close>: \<open>TypeError\<close> for \<open>None\<close>, \<open>ValueError\<close> for a text that is no number.\<close>

definition to_float :: "lib \<Rightarrow> rval option \<Rightarrow> game_state \<Rightarrow> error + int" where
  "to_float L v s =
     (case v of
        None \<Rightarrow> Inl TypeError
      | Some (RInt n) \<Rightarrow> Inr n
      | Some (RFloat t) \<Rightarrow> Inr t
      | Some (RStr t) \<Rightarrow> (case py_float L t of None \<Rightarrow> Inl ValueError | Some x \<Rightarrow> Inr x)
      | Some (RJson j) \<Rightarrow> Inl ValueError
      | Some RNone \<Rightarrow> Inl TypeError)"

definition update_killer :: "lib \<Rightarrow> GameEvent \<Rightarrow> PlayerKillPayload \<Rightarrow> step" where
  "update_killer L event pl =
     (case PlayerKillPayload.killer_id pl of
        None \<Rightarrow> step_ok
      | Some killer \<Rightarrow>
          step_read (get_player_state_key killer None) (\<lambda>killer_state_key.
          step_seq (case PlayerKillPayload.gold_granted pl of
                      None \<Rightarrow> step_ok
                    | Some g \<Rightarrow> hincrby killer_state_key ''gold'' (Some g))
         (step_seq (hincrby killer_state_key ''human_kills'' (Some 1))
         (step_read (get_player_kill_history_key killer) (\<lambda>killer_kill_history_key.
            case timestamp event of
              None \<Rightarrow> step_ok
            | Some t \<Rightarrow> step_read (event_timestamp L (Some t)) (\<lambda>ts.
                add_kill_history killer_kill_history_key ts ''human''))))))"

definition update_assistants :: "PlayerKillPayload \<Rightarrow> step" where
  "update_assistants pl =
     (case assistants pl of
        None \<Rightarrow> step_ok
      | Some ids \<Rightarrow>
          for_each ids (\<lambda>assistant_id.
            step_read (get_player_state_key assistant_id None) (\<lambda>assistant_state_key.
            step_seq (hincrby assistant_state_key ''gold'' (assist_gold pl))
                     (hincrby assistant_state_key ''human_kills_assists'' (Some 1)))))"

definition update_victim :: "lib \<Rightarrow> GameEvent \<Rightarrow> PlayerKillPayload \<Rightarrow> step" where
  "update_victim L event pl =
     (case victim_id pl of
        None \<Rightarrow> step_ok
      | Some victim \<Rightarrow>
          (case timestamp event of
             None \<Rightarrow> step_ok
           | Some t \<Rightarrow>
               step_read (get_player_death_history_key victim) (\<lambda>victim_death_history_key.
               step_read (event_timestamp L (Some t)) (\<lambda>ts.
                 zadd_death victim_death_history_key ts))))"

definition update_first_blood :: "lib \<Rightarrow> GameEvent \<Rightarrow> PlayerKillPayload \<Rightarrow> step" where
  "update_first_blood L event pl =
     (case timestamp event of
        None \<Rightarrow> step_ok
      | Some t \<Rightarrow>
          if PlayerKillPayload.killer_id pl = None \<and> victim_id pl = None then step_ok
          else
            step_read (event_timestamp L (Some t)) (\<lambda>ts.
            step_read (\<lambda>s. Inr (get_game_state_key
                (get_match_id_for_player (registry s) (py_or (PlayerKillPayload.killer_id pl) (victim_id pl)))))
              (\<lambda>match_state_key.
            step_read (hget match_state_key ''first_blood'') (\<lambda>first_blood.
              if is_sentinel first_blood then hset match_state_key [(''first_blood'', RFloat ts)]
              else step_read (to_float L first_blood) (\<lambda>current.
                     if ts < current then hset match_state_key [(''first_blood'', RFloat ts)]
                     else step_ok)))))"

definition PlayerKillProcessor :: "lib \<Rightarrow> GameEvent \<Rightarrow> PlayerKillPayload \<Rightarrow> step" where
  "PlayerKillProcessor L event pl =
     step_seq (update_killer L event pl)
    (step_seq (update_assistants pl)
    (step_seq (update_victim L event pl)
              (update_first_blood L event pl)))"

subsection \<open>DragonKillProcessor\<close>

text \<open>
  \<open>killer_id\<close> is a required field of the payload, so of the guard
  \<open>gold_granted is None or killer_id is None\<close> only the first half can hold.
\<close>

definition DragonKillProcessor :: "lib \<Rightarrow> GameEvent \<Rightarrow> DragonKillPayload \<Rightarrow> step" where
  "DragonKillProcessor L event pl =
     (case DragonKillPayload.gold_granted pl of
        None \<Rightarrow> step_ok
      | Some g \<Rightarrow>
          step_read (get_player_state_key (DragonKillPayload.killer_id pl) None) (\<lambda>killer_state_key.
          step_seq (hincrby killer_state_key ''gold'' (Some g))
         (step_read (get_player_kill_history_key (DragonKillPayload.killer_id pl)) (\<lambda>killer_kill_history_key.
          step_seq (case timestamp event of
                      None \<Rightarrow> step_ok
                    | Some t \<Rightarrow> step_read (event_timestamp L (Some t)) (\<lambda>ts.
                        add_kill_history killer_kill_history_key ts ''dragon''))
         (step_read (\<lambda>s. Inr (get_team_id (registry s) (Some (DragonKillPayload.killer_id pl)))) (\<lambda>team.
          step_read (get_team_state_key team None) (\<lambda>team_state_key.
            hincrby team_state_key ''dragon_kills'' (Some 1))))))))"

subsection \<open>TurretDestroyProcessor\<close>

definition turret_gold :: "TurretDestroyPayload \<Rightarrow> string \<Rightarrow> string \<Rightarrow> int option" where
  "turret_gold pl killer p = (if p = killer then player_gold_granted pl else team_gold_granted pl)"

definition TurretDestroyProcessor :: "TurretDestroyPayload \<Rightarrow> step" where
  "TurretDestroyProcessor pl =
     (case TurretDestroyPayload.killer_id pl of
        None \<Rightarrow> step_ok
      | Some killer \<Rightarrow>
          step_read (get_team_state_key (killer_team_id pl) None) (\<lambda>team_state_key.
          step_seq (hincrby team_state_key ''tower_kills'' (Some 1))
         (step_read (\<lambda>s. Inr (players_for_team (registry s) (killer_team_id pl))) (\<lambda>player_ids.
            for_each player_ids (\<lambda>p.
              case turret_gold pl killer p of
                None \<Rightarrow> step_ok
              | Some g \<Rightarrow> step_read (get_player_state_key p None) (\<lambda>player_state_key.
                  hincrby player_state_key ''gold'' (Some g)))))))"

subsection \<open>MatchEndProcessor\<close>

definition MatchEnd_calculate_kill_streaks :: "string option \<Rightarrow> step" where
  "MatchEnd_calculate_kill_streaks m =
     step_read (\<lambda>s. Inr (players_for_match (registry s) m)) (\<lambda>all_players.
       for_each all_players (\<lambda>p.
         step_read (get_player_kill_history_key p) (\<lambda>player_kill_history_key.
         step_read (\<lambda>s. Inr (kill_zsets s player_kill_history_key)) (\<lambda>kill_history.
         step_read (\<lambda>s. calculate_kill_streaks (map kill_timestamp kill_history) kill_streak_time_window)
           (\<lambda>kill_streaks.
         step_read (get_player_state_key p None) (\<lambda>player_state_key.
           hset player_state_key [(''kill_streaks'', RJson (JList (map JStr kill_streaks)))]))))))"

definition MatchEnd_calculate_max_killing_sprees :: "string option \<Rightarrow> step" where
  "MatchEnd_calculate_max_killing_sprees m =
     step_read (\<lambda>s. Inr (players_for_match (registry s) m)) (\<lambda>all_players.
       for_each all_players (\<lambda>p.
         step_read (get_player_kill_history_key p) (\<lambda>player_kill_history_key.
         step_read (get_player_death_history_key p) (\<lambda>player_death_history_key.
         step_read (\<lambda>s. Inr (kill_zsets s player_kill_history_key)) (\<lambda>kill_history.
         step_read (\<lambda>s. Inr (death_zsets s player_death_history_key)) (\<lambda>death_history.
         step_read (get_player_state_key p None) (\<lambda>player_state_key.
           hset player_state_key
             [(''max_killing_spree'', RInt (calculate_max_killing_spree kill_history death_history))])))))))"

definition MatchEndProcessor :: "GameEvent \<Rightarrow> MatchEndPayload \<Rightarrow> step" where
  "MatchEndProcessor event pl =
     step_seq (hset (get_game_state_key (match_id event)) [(''winning_team_id'', RStr (winning_team_id pl))])
    (step_seq (MatchEnd_calculate_kill_streaks (match_id event))
              (MatchEnd_calculate_max_killing_sprees (match_id event)))"

section \<open>Parsing and dispatch (app/game_event/models.py, app/game_state/services.py)\<close>

text \<open>\<open>EVENT_TYPE(value)\<close>, and \<open>UNKNOWN\<close> when the enumeration raises \<open>ValueError\<close>.\<close>

definition validate_type :: "string \<Rightarrow> EVENT_TYPE" where
  "validate_type v =
     (if v = ''MATCH_START'' then MATCH_START
      else if v = ''MINION_KILL'' then MINION_KILL
      else if v = ''PLAYER_KILL'' then PLAYER_KILL
      else if v = ''DRAGON_KILL'' then DRAGON_KILL
      else if v = ''TURRET_DESTROY'' then TURRET_DESTROY
      else if v = ''MATCH_END'' then MATCH_END
      else UNKNOWN)"

text \<open>
  \<open>resolve_payload\<close>: the payload model of the type, built from the decoded payload; for
  \<open>UNKNOWN\<close> the payload is set to \<open>None\<close> and the payload data is not looked at.
\<close>

definition resolve_payload :: "lib \<Rightarrow> EVENT_TYPE \<Rightarrow> json \<Rightarrow> error + payload" where
  "resolve_payload L ty payload_data =
     (if ty = UNKNOWN then Inr NoPayload else model_validate L ty payload_data)"

text \<open>
  \<open>GameEvent(**event_data)\<close> on the fields of the raw event hash, with the payload already
  decoded: \<open>type\<close> defaults to \<open>UNKNOWN\<close>, \<open>matchID\<close> and \<open>timestamp\<close> to \<open>None\<close>.
\<close>

definition parse_event :: "lib \<Rightarrow> (string \<times> string) list \<Rightarrow> json \<Rightarrow> error + GameEvent" where
  "parse_event L event_data payload_data =
     (let ty = (case dict_get event_data ''type'' of None \<Rightarrow> UNKNOWN | Some v \<Rightarrow> validate_type v) in
      case resolve_payload L ty payload_data of
        Inl e \<Rightarrow> Inl e
      | Inr p \<Rightarrow> Inr \<lparr>match_id = dict_get event_data ''matchID'', event_type = ty, payload = p,
                      timestamp = dict_get event_data ''timestamp''\<rparr>)"

text \<open>
  The \<^verbatim>\<open>match\<close> of \<open>process_game_event\<close> on the event type. A processor reads the attributes
  of its own payload model; on a payload of another shape the first read raises.
\<close>

definition process_event :: "lib \<Rightarrow> GameEvent \<Rightarrow> step" where
  "process_event L event =
     (case event_type event of
        MATCH_START \<Rightarrow> (case payload event of MatchStartP pl \<Rightarrow> MatchStartProcessor event pl | _ \<Rightarrow> step_raise AttributeError)
      | MINION_KILL \<Rightarrow> (case payload event of MinionKillP pl \<Rightarrow> MinionKillProcessor L event pl | _ \<Rightarrow> step_raise AttributeError)
      | PLAYER_KILL \<Rightarrow> (case payload event of PlayerKillP pl \<Rightarrow> PlayerKillProcessor L event pl | _ \<Rightarrow> step_raise AttributeError)
      | DRAGON_KILL \<Rightarrow> (case payload event of DragonKillP pl \<Rightarrow> DragonKillProcessor L event pl | _ \<Rightarrow> step_raise AttributeError)
      | TURRET_DESTROY \<Rightarrow> (case payload event of TurretDestroyP pl \<Rightarrow> TurretDestroyProcessor pl | _ \<Rightarrow> step_raise AttributeError)
      | MATCH_END \<Rightarrow> (case payload event of MatchEndP pl \<Rightarrow> MatchEndProcessor event pl | _ \<Rightarrow> step_raise AttributeError)
      | UNKNOWN \<Rightarrow> step_ok)"

text \<open>
  \<open>process_game_event\<close>: an event hash that is empty, has no payload or a payload that does
  not decode is dropped; so is an event that pydantic refuses (\<open>ValidationError\<close>, which here
  is the \<open>ValueError\<close> of the validators); any other exception of the parse is raised.
\<close>

definition process_game_event :: "lib \<Rightarrow> string \<Rightarrow> step" where
  "process_game_event L event_id s =
     (let event_data = raw_events s (redis_game_events_namespace @ '':event:'' @ event_id) in
      if event_data = [] then (s, None)
      else
        (case dict_get event_data ''payload'' of
           None \<Rightarrow> (s, None)
         | Some text \<Rightarrow>
             (case json_loads L text of
                None \<Rightarrow> (s, None)
              | Some payload_data \<Rightarrow>
                  (case parse_event L event_data payload_data of
                     Inl e \<Rightarrow> if e = ValueError then (s, None) else (s, Some e)
                   | Inr event \<Rightarrow> process_event L event s))))"

text \<open>
  The state-update consumer takes one event after the other; an exception leaves the loop.
\<close>

definition process_events :: "lib \<Rightarrow> GameEvent list \<Rightarrow> step" where
  "process_events L events = for_each events (process_event L)"

section \<open>Relations between the state before and after a step\<close>

text \<open>
  \<open>preserves R f\<close>: the state a step leaves, raised or not, is related by \<open>R\<close> to the state
  it started from. \<open>hash_frame P\<close> relates two states whose hashes agree on every cell
  \<open>(key, field)\<close> that \<open>P\<close> selects; \<open>same_registry\<close> two states with the same registry;
  \<open>counters_le F\<close> two states where no field of \<open>F\<close>, read as a counter, is lower in the second.
  A counter that is missing reads 0, as \<open>HINCRBY\<close> takes it.
\<close>

definition preserves :: "(game_state \<Rightarrow> game_state \<Rightarrow> bool) \<Rightarrow> step \<Rightarrow> bool" where
  "preserves R f = (\<forall>s. R s (fst (f s)))"

definition hash_frame :: "(string \<Rightarrow> string \<Rightarrow> bool) \<Rightarrow> game_state \<Rightarrow> game_state \<Rightarrow> bool" where
  "hash_frame P s s' = (\<forall>key field. P key field \<longrightarrow> hashes s' key field = hashes s key field)"

definition same_registry :: "game_state \<Rightarrow> game_state \<Rightarrow> bool" where
  "same_registry s s' = (registry s' = registry s)"

definition counter_value :: "rval option \<Rightarrow> int" where
  "counter_value v = (case v of Some (RInt n) \<Rightarrow> n | _ \<Rightarrow> 0)"

definition counters_le :: "string set \<Rightarrow> game_state \<Rightarrow> game_state \<Rightarrow> bool" where
  "counters_le F s s' =
     (\<forall>key field. field \<in> F \<longrightarrow> counter_value (hashes s key field) \<le> counter_value (hashes s' key field))"

definition nonneg :: "int option \<Rightarrow> bool" where
  "nonneg x = (case x of None \<Rightarrow> True | Some g \<Rightarrow> 0 \<le> g)"

definition gold_nonneg :: "payload \<Rightarrow> bool" where
  "gold_nonneg p =
     (case p of
        MinionKillP pl \<Rightarrow> nonneg (MinionKillPayload.gold_granted pl)
      | PlayerKillP pl \<Rightarrow> nonneg (PlayerKillPayload.gold_granted pl) \<and> nonneg (assist_gold pl)
      | DragonKillP pl \<Rightarrow> nonneg (DragonKillPayload.gold_granted pl)
      | TurretDestroyP pl \<Rightarrow> nonneg (player_gold_granted pl) \<and> nonneg (team_gold_granted pl)
      | _ \<Rightarrow> True)"

definition kill_counters :: "string set" where
  "kill_counters = {''minion_kills'', ''human_kills'', ''human_kills_assists'', ''dragon_kills'', ''tower_kills''}"

definition sample_lib :: lib where
  "sample_lib =
     \<lparr>fromisoformat = (\<lambda>t. if t = ''1970-01-01T00:00:05+00:00'' then Some 5
                          else if t = ''1970-01-01T00:00:10+00:00'' then Some 10 else None),
      py_float = (\<lambda>t. None),
      json_loads = (\<lambda>t. if t = ''{}'' then Some (JObj []) else None),
      model_validate = (\<lambda>ty j. Inl ValueError)\<rparr>"

definition sample_player_1 :: MatchPlayer where
  "sample_player_1 = \<lparr>MatchPlayer.player_id = ''player_1'', gold = 500, alive = True, name = ''one''\<rparr>"

definition sample_player_2 :: MatchPlayer where
  "sample_player_2 = \<lparr>MatchPlayer.player_id = ''player_2'', gold = 500, alive = True, name = ''two''\<rparr>"

definition sample_player_3 :: MatchPlayer where
  "sample_player_3 = \<lparr>MatchPlayer.player_id = ''player_3'', gold = 500, alive = False, name = ''three''\<rparr>"

definition sample_team_1 :: MatchTeam where
  "sample_team_1 = \<lparr>team_id = ''team_1'', players = [sample_player_1, sample_player_2]\<rparr>"

definition sample_team_2 :: MatchTeam where
  "sample_team_2 = \<lparr>team_id = ''team_2'', players = [sample_player_3]\<rparr>"

definition sample_payload :: MatchStartPayload where
  "sample_payload =
     \<lparr>fixture = \<lparr>start_time = ''1970-01-01T00:00:00+00:00'', title = ''final'', series_current = 1,
                  series_max = 3, series_type = ''bo3''\<rparr>,
      teams = [sample_team_1, sample_team_2]\<rparr>"

definition sample_start :: GameEvent where
  "sample_start =
     \<lparr>match_id = Some ''game_1'', event_type = MATCH_START, payload = MatchStartP sample_payload,
      timestamp = None\<rparr>"

definition sample_state :: game_state where
  "sample_state = fst (process_event sample_lib sample_start init_state)"

definition mid_game_fields :: "string set" where
  "mid_game_fields = {''gold'', ''minion_kills'', ''human_kills'', ''human_kills_assists'', ''dragon_kills'',
     ''tower_kills'', ''first_blood'', ''winning_team_id'', ''kill_streaks'', ''max_killing_spree''}"

definition recognized_types :: "string list" where
  "recognized_types = [''MATCH_START'', ''MINION_KILL'', ''PLAYER_KILL'', ''DRAGON_KILL'', ''TURRET_DESTROY'', ''MATCH_END'']"

definition unrecognized :: "(string \<times> string) list \<Rightarrow> bool" where
  "unrecognized event_data =
     (case dict_get event_data ''type'' of None \<Rightarrow> True | Some v \<Rightarrow> v \<notin> set recognized_types)"

definition minion_negative_gold :: GameEvent where
  "minion_negative_gold =
     \<lparr>match_id = Some ''game_1'', event_type = MINION_KILL,
      payload = MinionKillP \<lparr>MinionKillPayload.player_id = ''player_1'', gold_granted = Some (- 5)\<rparr>,
      timestamp = Some ''1970-01-01T00:00:05+00:00''\<rparr>"

definition minion_no_timestamp :: GameEvent where
  "minion_no_timestamp =
     \<lparr>match_id = Some ''game_1'', event_type = MINION_KILL,
      payload = MinionKillP \<lparr>MinionKillPayload.player_id = ''player_1'', gold_granted = Some 20\<rparr>,
      timestamp = None\<rparr>"

definition kill_no_assist_gold :: GameEvent where
  "kill_no_assist_gold =
     \<lparr>match_id = Some ''game_1'', event_type = PLAYER_KILL,
      payload = PlayerKillP \<lparr>PlayerKillPayload.killer_id = Some ''player_1'', victim_id = Some ''player_3'',
                  gold_granted = Some 300, assistants = Some [''player_2''], assist_gold = None\<rparr>,
      timestamp = Some ''1970-01-01T00:00:05+00:00''\<rparr>"

definition sample_minion :: GameEvent where
  "sample_minion =
     \<lparr>match_id = Some ''game_1'', event_type = MINION_KILL,
      payload = MinionKillP \<lparr>MinionKillPayload.player_id = ''player_1'', gold_granted = Some 20\<rparr>,
      timestamp = Some ''1970-01-01T00:00:05+00:00''\<rparr>"

definition sample_kill :: GameEvent where
  "sample_kill =
     \<lparr>match_id = Some ''game_1'', event_type = PLAYER_KILL,
      payload = PlayerKillP \<lparr>PlayerKillPayload.killer_id = Some ''player_1'', victim_id = Some ''player_3'',
                  gold_granted = Some 300, assistants = Some [''player_2''], assist_gold = Some 100\<rparr>,
      timestamp = Some ''1970-01-01T00:00:10+00:00''\<rparr>"

definition sample_unknown_data :: "(string \<times> string) list" where
  "sample_unknown_data = [(''matchID'', ''game_1''), (''type'', ''PLAYER_RESPAWN''), (''payload'', ''{}'')]"

definition sample_unknown_state :: game_state where
  "sample_unknown_state =
     sample_state\<lparr>raw_events := (\<lambda>key. if key = ''game_events:event:e1'' then sample_unknown_data else [])\<rparr>"

text \<open>
  The keys that \<open>get_team_state_key\<close> and \<open>get_player_state_key\<close> build for a known match, and
  the pairs (team, player) of a \<open>MATCH_START\<close> payload in the order the nested loops visit them.
\<close>

definition team_key :: "string \<Rightarrow> string \<Rightarrow> string" where
  "team_key m t = redis_game_state_namespace @ '':game:'' @ m @ '':team:'' @ t"

definition player_key :: "string \<Rightarrow> string \<Rightarrow> string" where
  "player_key m p = redis_game_state_namespace @ '':game:'' @ m @ '':player:'' @ p"

definition start_pairs :: "MatchStartPayload \<Rightarrow> (MatchTeam \<times> MatchPlayer) list" where
  "start_pairs pl = concat (map (\<lambda>team. map (Pair team) (players team)) (teams pl))"

text \<open>The bodies of the team loop and of the player loop of \<open>MatchStartProcessor\<close>.\<close>

definition start_team_step :: "string \<Rightarrow> MatchTeam \<Rightarrow> step" where
  "start_team_step m team =
     step_read (get_team_state_key (Some (team_id team)) (Some m)) (\<lambda>team_key. hset team_key team_metadata)"

definition start_player_step :: "string \<Rightarrow> MatchTeam \<times> MatchPlayer \<Rightarrow> step" where
  "start_player_step m tp =
     step_seq (register_step (MatchPlayer.player_id (snd tp)) m (team_id (fst tp)))
       (step_read (get_player_state_key (MatchPlayer.player_id (snd tp)) None) (\<lambda>player_key.
          hset player_key (player_metadata (fst tp) (snd tp))))"

definition start_no_match_id :: GameEvent where
  "start_no_match_id = sample_start\<lparr>match_id := None\<rparr>"

definition start_empty_team :: GameEvent where
  "start_empty_team =
     \<lparr>match_id = Some ''game_2'', event_type = MATCH_START,
      payload = MatchStartP
        \<lparr>fixture = \<lparr>start_time = ''1970-01-01T00:00:00+00:00'', title = ''final'', series_current = 1,
                     series_max = 3, series_type = ''bo3''\<rparr>,
         teams = [\<lparr>team_id = ''team_1'', players =
                     [\<lparr>MatchPlayer.player_id = ''player_1'', gold = 500, alive = True, name = ''one''\<rparr>]\<rparr>,
                  \<lparr>team_id = ''team_2'', players = []\<rparr>]\<rparr>,
      timestamp = None\<rparr>"

section \<open>The registry\<close>


lemma dict_get_set_same: "dict_get (dict_set k v kvs) k = Some v"
  by (induction kvs) (auto simp: dict_get_def)

lemma dict_get_set_other: "k' \<noteq> k \<Longrightarrow> dict_get (dict_set k v kvs) k' = dict_get kvs k'"
  by (induction kvs) (auto simp: dict_get_def)

lemma dict_get_pop_same: "dict_get (dict_pop k kvs) k = None"
  by (induction kvs) (auto simp: dict_get_def dict_pop_def)

lemma dict_get_pop_other: "k' \<noteq> k \<Longrightarrow> dict_get (dict_pop k kvs) k' = dict_get kvs k'"
  by (induction kvs) (auto simp: dict_get_def dict_pop_def)

lemma dict_get_absent: "k \<notin> fst ` set kvs \<Longrightarrow> dict_get kvs k = None"
  by (simp add: dict_get_def map_of_eq_None_iff)

lemma map_fst_filter_pop:
  "map fst (filter P (dict_pop k kvs)) = filter (\<lambda>q. q \<noteq> k) (map fst (filter P kvs))"
  by (induction kvs) (auto simp: dict_pop_def)

text \<open>
  Claim C10. Right after \<open>register_player p m t\<close> the three lookups answer \<open>m\<close>, \<open>t\<close> and
  \<open>m\<close>. For a player that is not a key of the registry, and for a player just unregistered,
  the player lookups answer \<open>None\<close> (they are total: nothing is raised).
  \<open>unregister_player p\<close> leaves the entry of every other player and the team dictionary as
  they were, and \<open>players_for_match\<close> and \<open>players_for_team\<close> answer the lists they answered
  before with \<open>p\<close> removed.
\<close>

theorem registry_laws:
  "get_match_id_for_player (register_player p m t r) (Some p) = Some m
   \<and> get_team_id (register_player p m t r) (Some p) = Some t
   \<and> get_match_id_for_team (register_player p m t r) (Some t) = Some m
   \<and> (p \<notin> fst ` set (reg_matches r) \<longrightarrow>
        get_match_id_for_player r (Some p) = None \<and> get_team_id r (Some p) = None)
   \<and> get_match_id_for_player (unregister_player p r) (Some p) = None
   \<and> get_team_id (unregister_player p r) (Some p) = None
   \<and> (\<forall>q. q \<noteq> p \<longrightarrow>
        dict_get (reg_matches (unregister_player p r)) q = dict_get (reg_matches r) q)
   \<and> reg_teams (unregister_player p r) = reg_teams r
   \<and> players_for_match (unregister_player p r) mm = filter (\<lambda>q. q \<noteq> p) (players_for_match r mm)
   \<and> players_for_team (unregister_player p r) tt = filter (\<lambda>q. q \<noteq> p) (players_for_team r tt)"
  by (simp add: get_match_id_for_player_def get_team_id_def get_match_id_for_team_def
      register_player_def unregister_player_def players_for_match_def players_for_team_def
      dict_get_set_same dict_get_pop_same dict_get_pop_other dict_get_absent map_fst_filter_pop)

theorem registry_laws_witness:
  "get_match_id_for_player
      (register_player ''player_3'' ''game_1'' ''team_2''
        (register_player ''player_2'' ''game_1'' ''team_1''
          (register_player ''player_1'' ''game_1'' ''team_1'' \<lparr>reg_matches = [], reg_teams = []\<rparr>)))
      (Some ''player_3'') = Some ''game_1''
   \<and> ''player_3'' \<notin> fst ` set (reg_matches
        (register_player ''player_2'' ''game_1'' ''team_1''
          (register_player ''player_1'' ''game_1'' ''team_1'' \<lparr>reg_matches = [], reg_teams = []\<rparr>)))
   \<and> get_match_id_for_player
        (register_player ''player_2'' ''game_1'' ''team_1''
          (register_player ''player_1'' ''game_1'' ''team_1'' \<lparr>reg_matches = [], reg_teams = []\<rparr>))
        (Some ''player_3'') = None
   \<and> players_for_team
        (unregister_player ''player_1''
          (register_player ''player_2'' ''game_1'' ''team_1''
            (register_player ''player_1'' ''game_1'' ''team_1'' \<lparr>reg_matches = [], reg_teams = []\<rparr>)))
        (Some ''team_1'') = [''player_2'']"
  using registry_laws [of "''player_3''" "''game_1''" "''team_2''"
      "register_player ''player_2'' ''game_1'' ''team_1''
          (register_player ''player_1'' ''game_1'' ''team_1'' \<lparr>reg_matches = [], reg_teams = []\<rparr>)"]
    registry_laws [of "''player_1''" "''game_1''" "''team_1''"
      "register_player ''player_2'' ''game_1'' ''team_1''
          (register_player ''player_1'' ''game_1'' ''team_1'' \<lparr>reg_matches = [], reg_teams = []\<rparr>)"
      "Some ''game_1''" "Some ''team_1''"]
  by (simp add: register_player_def players_for_team_def)

section \<open>Kill streaks\<close>



















text \<open>Cases of tests/test\_kill\_streaks.py, evaluated on the model.\<close>

lemma calculate_kill_streaks_tests:
  "calculate_kill_streaks [1640995200, 1640995201, 1640995202] 2 = Inr [''Triple Kill at 2022-01-01 00:00:02'']
   \<and> calculate_kill_streaks [1, 2, 3, 5, 6, 7] 1
       = Inr [''Triple Kill at 1970-01-01 00:00:03'', ''Triple Kill at 1970-01-01 00:00:07'']
   \<and> calculate_kill_streaks [1704110460, 1704110465] 10 = Inr [''Double Kill at 2024-01-01 12:01:05'']
   \<and> calculate_kill_streaks [1, 4] 2 = Inr []"
  by code_simp

section \<open>Killing sprees\<close>










lemma preserves_ok: "(\<And>s. R s s) \<Longrightarrow> preserves R step_ok"
  by (simp add: preserves_def step_ok_def)

lemma preserves_raise: "(\<And>s. R s s) \<Longrightarrow> preserves R (step_raise e)"
  by (simp add: preserves_def step_raise_def)

lemma preserves_seq:
  assumes "\<And>a b c. R a b \<Longrightarrow> R b c \<Longrightarrow> R a c" and "preserves R f" and "preserves R g"
  shows "preserves R (step_seq f g)"
  unfolding preserves_def
proof
  fix s
  obtain s1 r where f: "f s = (s1, r)" by (cases "f s")
  from assms(2) f have 1: "R s s1" by (metis fst_conv preserves_def)
  from assms(3) have 2: "R s1 (fst (g s1))" by (simp add: preserves_def)
  show "R s (fst (step_seq f g s))"
    using f 1 2 assms(1) by (cases r) (auto simp: step_seq_def)
qed

lemma preserves_read:
  assumes "\<And>s. R s s" and "\<And>a. preserves R (f a)"
  shows "preserves R (step_read r f)"
  using assms by (auto simp: preserves_def step_read_def split: sum.splits)

lemma preserves_for_each:
  assumes "\<And>s. R s s" and "\<And>a b c. R a b \<Longrightarrow> R b c \<Longrightarrow> R a c" and "\<And>x. preserves R (f x)"
  shows "preserves R (for_each xs f)"
  unfolding preserves_def
proof (induction xs)
  case Nil
  show ?case using assms(1) by simp
next
  case (Cons x xs)
  show ?case
  proof
    fix s
    obtain s1 r where f: "f x s = (s1, r)" by (cases "f x s")
    from assms(3) f have 1: "R s s1" by (metis fst_conv preserves_def)
    from Cons have 2: "R s1 (fst (for_each xs f s1))" by simp
    show "R s (fst (for_each (x # xs) f s))"
      using f 1 2 assms(2) by (cases r) auto
  qed
qed

lemma preserves_option:
  "(v = None \<Longrightarrow> preserves R a) \<Longrightarrow> (\<And>x. v = Some x \<Longrightarrow> preserves R (b x)) \<Longrightarrow>
   preserves R (case v of None \<Rightarrow> a | Some x \<Rightarrow> b x)"
  by (cases v) auto

lemma preserves_if: "preserves R a \<Longrightarrow> preserves R b \<Longrightarrow> preserves R (if c then a else b)"
  by simp

lemma hash_frame_refl: "hash_frame P s s"
  by (simp add: hash_frame_def)

lemma hash_frame_trans: "hash_frame P a b \<Longrightarrow> hash_frame P b c \<Longrightarrow> hash_frame P a c"
  by (simp add: hash_frame_def)

lemma same_registry_refl: "same_registry s s"
  by (simp add: same_registry_def)

lemma same_registry_trans: "same_registry a b \<Longrightarrow> same_registry b c \<Longrightarrow> same_registry a c"
  by (simp add: same_registry_def)

lemma counters_le_refl: "counters_le F s s"
  by (simp add: counters_le_def)

lemma counters_le_trans: "counters_le F a b \<Longrightarrow> counters_le F b c \<Longrightarrow> counters_le F a c"
  unfolding counters_le_def by (meson order_trans)

lemmas frame_rules =
  preserves_ok [of "hash_frame P", OF hash_frame_refl]
  preserves_raise [of "hash_frame P", OF hash_frame_refl]
  preserves_seq [of "hash_frame P", OF hash_frame_trans]
  preserves_read [of "hash_frame P", OF hash_frame_refl]
  preserves_for_each [of "hash_frame P", OF hash_frame_refl hash_frame_trans]
  preserves_option [where R = "hash_frame P"]
  preserves_if [of "hash_frame P"]
  for P

lemmas registry_rules =
  preserves_ok [of same_registry, OF same_registry_refl]
  preserves_raise [of same_registry, OF same_registry_refl]
  preserves_seq [of same_registry, OF same_registry_trans]
  preserves_read [of same_registry, OF same_registry_refl]
  preserves_for_each [of same_registry, OF same_registry_refl same_registry_trans]
  preserves_option [where R = same_registry]
  preserves_if [of same_registry]

lemmas counter_rules =
  preserves_ok [of "counters_le F", OF counters_le_refl]
  preserves_raise [of "counters_le F", OF counters_le_refl]
  preserves_seq [of "counters_le F", OF counters_le_trans]
  preserves_read [of "counters_le F", OF counters_le_refl]
  preserves_for_each [of "counters_le F", OF counters_le_refl counters_le_trans]
  preserves_option [where R = "counters_le F"]
  preserves_if [of "counters_le F"]
  for F

lemma fold_upd_other:
  "field \<notin> fst ` set mapping \<Longrightarrow> fold (\<lambda>(f, v) h. h(f \<mapsto> v)) mapping h field = h field"
  by (induction mapping arbitrary: h) auto

lemma hset_frame:
  assumes "\<And>f. f \<in> fst ` set mapping \<Longrightarrow> \<not> P key f"
  shows "preserves (hash_frame P) (hset key mapping)"
proof -
  have "fold (\<lambda>(f, v) h. h(f \<mapsto> v)) mapping h field = h field" if "P key field" for h field
    using assms that by (intro fold_upd_other) blast
  then show ?thesis
    by (auto simp: preserves_def hash_frame_def hset_def)
qed

lemma hincrby_frame: "\<not> P key field \<Longrightarrow> preserves (hash_frame P) (hincrby key field amount)"
  by (auto simp: preserves_def hash_frame_def hincrby_def split: option.splits rval.splits)

lemma zadd_kill_frame: "preserves (hash_frame P) (add_kill_history key ts kt)"
  by (auto simp: preserves_def hash_frame_def add_kill_history_def zadd_kill_def)

lemma zadd_death_frame: "preserves (hash_frame P) (zadd_death key ts)"
  by (auto simp: preserves_def hash_frame_def zadd_death_def)

lemma MinionKill_frame:
  "(\<And>k. \<not> P k ''gold'') \<Longrightarrow> (\<And>k. \<not> P k ''minion_kills'') \<Longrightarrow>
   preserves (hash_frame P) (MinionKillProcessor L event pl)"
  unfolding MinionKillProcessor_def
  by (intro frame_rules hincrby_frame zadd_kill_frame) auto

section \<open>Frames\<close>


lemma update_killer_frame:
  "(\<And>k. \<not> P k ''gold'') \<Longrightarrow> (\<And>k. \<not> P k ''human_kills'') \<Longrightarrow>
   preserves (hash_frame P) (update_killer L event pl)"
  unfolding update_killer_def
  by (intro frame_rules hincrby_frame zadd_kill_frame) auto

lemma update_assistants_frame:
  "(\<And>k. \<not> P k ''gold'') \<Longrightarrow> (\<And>k. \<not> P k ''human_kills_assists'') \<Longrightarrow>
   preserves (hash_frame P) (update_assistants pl)"
  unfolding update_assistants_def
  by (intro frame_rules hincrby_frame) auto

lemma update_victim_frame: "preserves (hash_frame P) (update_victim L event pl)"
  unfolding update_victim_def
  by (intro frame_rules zadd_death_frame)

lemma update_first_blood_frame:
  "(\<And>k. \<not> P k ''first_blood'') \<Longrightarrow> preserves (hash_frame P) (update_first_blood L event pl)"
  unfolding update_first_blood_def
  by (intro frame_rules hset_frame) auto

lemma PlayerKill_frame:
  "(\<And>k. \<not> P k ''gold'') \<Longrightarrow> (\<And>k. \<not> P k ''human_kills'') \<Longrightarrow> (\<And>k. \<not> P k ''human_kills_assists'') \<Longrightarrow>
   (\<And>k. \<not> P k ''first_blood'') \<Longrightarrow> preserves (hash_frame P) (PlayerKillProcessor L event pl)"
  unfolding PlayerKillProcessor_def
  by (intro frame_rules update_killer_frame update_assistants_frame update_victim_frame update_first_blood_frame) auto

lemma DragonKill_frame:
  "(\<And>k. \<not> P k ''gold'') \<Longrightarrow> (\<And>k. \<not> P k ''dragon_kills'') \<Longrightarrow>
   preserves (hash_frame P) (DragonKillProcessor L event pl)"
  unfolding DragonKillProcessor_def
  by (intro frame_rules hincrby_frame zadd_kill_frame) auto

lemma TurretDestroy_frame:
  "(\<And>k. \<not> P k ''gold'') \<Longrightarrow> (\<And>k. \<not> P k ''tower_kills'') \<Longrightarrow>
   preserves (hash_frame P) (TurretDestroyProcessor pl)"
  unfolding TurretDestroyProcessor_def
  by (intro frame_rules hincrby_frame) auto

lemma MatchEnd_frame:
  "(\<And>k. \<not> P k ''winning_team_id'') \<Longrightarrow> (\<And>k. \<not> P k ''kill_streaks'') \<Longrightarrow>
   (\<And>k. \<not> P k ''max_killing_spree'') \<Longrightarrow> preserves (hash_frame P) (MatchEndProcessor event pl)"
  unfolding MatchEndProcessor_def MatchEnd_calculate_kill_streaks_def MatchEnd_calculate_max_killing_sprees_def
  by (intro frame_rules hset_frame) auto

lemma process_event_frame:
  assumes "event_type e \<noteq> MATCH_START" and "\<And>k f. f \<in> mid_game_fields \<Longrightarrow> \<not> P k f"
  shows "preserves (hash_frame P) (process_event L e)"
proof -
  have f: "\<And>k. \<not> P k ''gold''" "\<And>k. \<not> P k ''minion_kills''" "\<And>k. \<not> P k ''human_kills''"
    "\<And>k. \<not> P k ''human_kills_assists''" "\<And>k. \<not> P k ''dragon_kills''" "\<And>k. \<not> P k ''tower_kills''"
    "\<And>k. \<not> P k ''first_blood''" "\<And>k. \<not> P k ''winning_team_id''" "\<And>k. \<not> P k ''kill_streaks''"
    "\<And>k. \<not> P k ''max_killing_spree''"
    using assms(2) by (simp_all add: mid_game_fields_def)
  note r = frame_rules(1,2) [of P]
  show ?thesis
    using assms(1) unfolding process_event_def
    by (cases "event_type e"; cases "payload e")
       (simp_all add: r MinionKill_frame PlayerKill_frame DragonKill_frame TurretDestroy_frame MatchEnd_frame f)
qed

lemma process_events_frame:
  assumes "\<forall>e\<in>set es. event_type e \<noteq> MATCH_START" and "\<And>k f. f \<in> mid_game_fields \<Longrightarrow> \<not> P k f"
  shows "hash_frame P s (fst (process_events L es s))"
  using assms unfolding process_events_def
proof (induction es arbitrary: s)
  case Nil
  show ?case by (simp add: hash_frame_refl)
next
  case (Cons e es)
  obtain s1 r where f: "process_event L e s = (s1, r)" by (cases "process_event L e s")
  have "preserves (hash_frame P) (process_event L e)"
    using Cons.prems by (intro process_event_frame) auto
  with f have 1: "hash_frame P s s1" by (metis fst_conv preserves_def)
  have 2: "hash_frame P s1 (fst (for_each es (process_event L) s1))"
    using Cons.prems by (intro Cons.IH) auto
  show ?case
    using f 1 2 hash_frame_trans by (cases r) auto
qed

section \<open>Counters\<close>

lemma hset_counters:
  assumes "\<And>f. f \<in> fst ` set mapping \<Longrightarrow> f \<notin> F"
  shows "preserves (counters_le F) (hset key mapping)"
proof -
  have "fold (\<lambda>(f, v) h. h(f \<mapsto> v)) mapping h field = h field" if "field \<in> F" for h field
    using assms that by (intro fold_upd_other) blast
  then show ?thesis
    by (auto simp: preserves_def counters_le_def hset_def)
qed

lemma hincrby_counters:
  "(field \<in> F \<Longrightarrow> nonneg amount) \<Longrightarrow> preserves (counters_le F) (hincrby key field amount)"
  by (auto simp: preserves_def counters_le_def hincrby_def counter_value_def nonneg_def
      split: option.splits rval.splits)

lemma zadd_kill_counters: "preserves (counters_le F) (add_kill_history key ts kt)"
  by (auto simp: preserves_def counters_le_def add_kill_history_def zadd_kill_def)

lemma zadd_death_counters: "preserves (counters_le F) (zadd_death key ts)"
  by (auto simp: preserves_def counters_le_def zadd_death_def)

lemma nonneg_Some: "nonneg (Some g) = (0 \<le> g)"
  by (simp add: nonneg_def)

lemma MinionKill_counters:
  "(''gold'' \<in> F \<Longrightarrow> nonneg (MinionKillPayload.gold_granted pl)) \<Longrightarrow>
   preserves (counters_le F) (MinionKillProcessor L event pl)"
  unfolding MinionKillProcessor_def
  by (intro counter_rules hincrby_counters zadd_kill_counters) (auto simp: nonneg_def)

lemma PlayerKill_counters:
  "(''gold'' \<in> F \<Longrightarrow> nonneg (PlayerKillPayload.gold_granted pl) \<and> nonneg (assist_gold pl)) \<Longrightarrow>
   ''first_blood'' \<notin> F \<Longrightarrow>
   preserves (counters_le F) (PlayerKillProcessor L event pl)"
  unfolding PlayerKillProcessor_def update_killer_def update_assistants_def update_victim_def
    update_first_blood_def
  by (intro counter_rules hincrby_counters zadd_kill_counters zadd_death_counters hset_counters)
     (auto simp: nonneg_def)

lemma DragonKill_counters:
  "(''gold'' \<in> F \<Longrightarrow> nonneg (DragonKillPayload.gold_granted pl)) \<Longrightarrow>
   preserves (counters_le F) (DragonKillProcessor L event pl)"
  unfolding DragonKillProcessor_def
  by (intro counter_rules hincrby_counters zadd_kill_counters) (auto simp: nonneg_def)

lemma TurretDestroy_counters:
  "(''gold'' \<in> F \<Longrightarrow> nonneg (player_gold_granted pl) \<and> nonneg (team_gold_granted pl)) \<Longrightarrow>
   preserves (counters_le F) (TurretDestroyProcessor pl)"
  unfolding TurretDestroyProcessor_def
  by (intro counter_rules hincrby_counters) (auto simp: nonneg_def turret_gold_def split: if_splits)

lemma MatchEnd_counters:
  "''winning_team_id'' \<notin> F \<Longrightarrow> ''kill_streaks'' \<notin> F \<Longrightarrow> ''max_killing_spree'' \<notin> F \<Longrightarrow>
   preserves (counters_le F) (MatchEndProcessor event pl)"
  unfolding MatchEndProcessor_def MatchEnd_calculate_kill_streaks_def MatchEnd_calculate_max_killing_sprees_def
  by (intro counter_rules hset_counters) auto

lemma process_event_counters:
  assumes "event_type e \<noteq> MATCH_START" and "''gold'' \<in> F \<Longrightarrow> gold_nonneg (payload e)"
    and "F \<subseteq> insert ''gold'' kill_counters"
  shows "preserves (counters_le F) (process_event L e)"
proof -
  have nf: "''first_blood'' \<notin> F" "''winning_team_id'' \<notin> F" "''kill_streaks'' \<notin> F" "''max_killing_spree'' \<notin> F"
    using assms(3) by (auto simp: kill_counters_def)
  note r = counter_rules(1,2) [of F]
  show ?thesis
    using assms(1,2) unfolding process_event_def
    by (cases "event_type e"; cases "payload e")
       (simp_all add: r MinionKill_counters PlayerKill_counters DragonKill_counters
          TurretDestroy_counters MatchEnd_counters nf gold_nonneg_def)
qed

lemma process_events_counters:
  assumes "\<forall>e\<in>set es. event_type e \<noteq> MATCH_START" and "''gold'' \<in> F \<Longrightarrow> \<forall>e\<in>set es. gold_nonneg (payload e)"
    and "F \<subseteq> insert ''gold'' kill_counters"
  shows "counters_le F s (fst (process_events L es s))"
  using assms(1,2) unfolding process_events_def
proof (induction es arbitrary: s)
  case Nil
  show ?case by (simp add: counters_le_refl)
next
  case (Cons e es)
  obtain s1 r where f: "process_event L e s = (s1, r)" by (cases "process_event L e s")
  have "preserves (counters_le F) (process_event L e)"
    using Cons.prems assms(3) by (intro process_event_counters) auto
  with f have 1: "counters_le F s s1" by (metis fst_conv preserves_def)
  have 2: "counters_le F s1 (fst (for_each es (process_event L) s1))"
    using Cons.prems by (intro Cons.IH) auto
  show ?case
    using f 1 2 counters_le_trans by (cases r) auto
qed

text \<open>
  Claim C5, as amended. Over any sequence of events other than \<open>MATCH_START\<close>, whatever each
  of them does and raised or not, no kill counter (\<open>minion_kills\<close>, \<open>human_kills\<close>,
  \<open>human_kills_assists\<close>, \<open>dragon_kills\<close>, \<open>tower_kills\<close>) of any hash is lowered; and \<open>gold\<close> is
  not lowered either when every gold amount that the events carry is non-negative.
\<close>

theorem counters_monotone:
  "(\<forall>e\<in>set es. event_type e \<noteq> MATCH_START) \<longrightarrow>
     counters_le kill_counters s (fst (process_events L es s))
     \<and> ((\<forall>e\<in>set es. gold_nonneg (payload e)) \<longrightarrow>
          counters_le (insert ''gold'' kill_counters) s (fst (process_events L es s)))"
proof (intro impI conjI)
  assume a: "\<forall>e\<in>set es. event_type e \<noteq> MATCH_START"
  show "counters_le kill_counters s (fst (process_events L es s))"
    using a by (rule process_events_counters) (auto simp: kill_counters_def)
  assume "\<forall>e\<in>set es. gold_nonneg (payload e)"
  with a show "counters_le (insert ''gold'' kill_counters) s (fst (process_events L es s))"
    by (intro process_events_counters) auto
qed

theorem counters_monotone_witness:
  "counter_value (hashes sample_state ''game_state:game:game_1:player:player_1'' ''gold'')
     \<le> counter_value (hashes (fst (process_events sample_lib [sample_minion, sample_kill] sample_state))
          ''game_state:game:game_1:player:player_1'' ''gold'')
   \<and> counter_value (hashes (fst (process_events sample_lib [sample_minion, sample_kill] sample_state))
          ''game_state:game:game_1:player:player_1'' ''gold'') = 820"
proof -
  have t: "\<forall>e\<in>set [sample_minion, sample_kill]. event_type e \<noteq> MATCH_START"
    by (simp add: sample_minion_def sample_kill_def)
  have g: "\<forall>e\<in>set [sample_minion, sample_kill]. gold_nonneg (payload e)"
    by (simp add: sample_minion_def sample_kill_def gold_nonneg_def nonneg_def)
  have v: "counter_value (hashes (fst (process_events sample_lib [sample_minion, sample_kill] sample_state))
          ''game_state:game:game_1:player:player_1'' ''gold'') = 820"
    by code_simp
  from counters_monotone [of "[sample_minion, sample_kill]" sample_state sample_lib] t g
  have "counters_le (insert ''gold'' kill_counters) sample_state
          (fst (process_events sample_lib [sample_minion, sample_kill] sample_state))"
    by blast
  then have "counter_value (hashes sample_state ''game_state:game:game_1:player:player_1'' ''gold'')
     \<le> counter_value (hashes (fst (process_events sample_lib [sample_minion, sample_kill] sample_state))
          ''game_state:game:game_1:player:player_1'' ''gold'')"
    unfolding counters_le_def by blast
  with v show ?thesis by blast
qed

text \<open>
  The claim as it stands fails: a \<open>MINION_KILL\<close> that grants \<open>-5\<close> gold (the payload field is
  any integer) is processed without error and takes the gold of \<open>player_1\<close> from 500 to 495.
\<close>

theorem counters_monotone_counterexample:
  "event_type minion_negative_gold \<noteq> MATCH_START
   \<and> counter_value (hashes sample_state ''game_state:game:game_1:player:player_1'' ''gold'') = 500
   \<and> counter_value (hashes (fst (process_events sample_lib [minion_negative_gold] sample_state))
        ''game_state:game:game_1:player:player_1'' ''gold'') = 495
   \<and> snd (process_events sample_lib [minion_negative_gold] sample_state) = None
   \<and> \<not> counters_le {''gold''} sample_state (fst (process_events sample_lib [minion_negative_gold] sample_state))"
proof -
  have a: "counter_value (hashes sample_state ''game_state:game:game_1:player:player_1'' ''gold'') = 500"
    by code_simp
  have b: "counter_value (hashes (fst (process_events sample_lib [minion_negative_gold] sample_state))
        ''game_state:game:game_1:player:player_1'' ''gold'') = 495"
    by code_simp
  have c: "snd (process_events sample_lib [minion_negative_gold] sample_state) = None"
    by code_simp
  have d: "event_type minion_negative_gold \<noteq> MATCH_START"
    by (simp add: minion_negative_gold_def)
  have "\<not> counters_le {''gold''} sample_state (fst (process_events sample_lib [minion_negative_gold] sample_state))"
  proof
    assume "counters_le {''gold''} sample_state (fst (process_events sample_lib [minion_negative_gold] sample_state))"
    then have "counter_value (hashes sample_state ''game_state:game:game_1:player:player_1'' ''gold'')
        \<le> counter_value (hashes (fst (process_events sample_lib [minion_negative_gold] sample_state))
        ''game_state:game:game_1:player:player_1'' ''gold'')"
      unfolding counters_le_def by blast
    with a b show False by simp
  qed
  with a b c d show ?thesis by blast
qed

section \<open>Unknown events\<close>

lemma validate_type_unrecognized: "v \<notin> set recognized_types \<Longrightarrow> validate_type v = UNKNOWN"
  by (simp add: validate_type_def recognized_types_def)

text \<open>
  Claim C8. For an event hash whose \<open>type\<close> is missing or is none of the six recognized
  values, the parse gives an event of type \<open>UNKNOWN\<close> with payload \<open>None\<close>, whatever the payload
  data is; the dispatch runs no processor on it and returns the state as it was, without an
  exception; and so does \<open>process_game_event\<close> on the stored event (also when its payload is
  missing or does not decode): hashes, histories and registry are all unchanged.
\<close>

theorem unknown_event_dropped:
  "unrecognized event_data \<longrightarrow>
     parse_event L event_data payload_data
       = Inr \<lparr>match_id = dict_get event_data ''matchID'', event_type = UNKNOWN, payload = NoPayload,
              timestamp = dict_get event_data ''timestamp''\<rparr>
     \<and> process_event L \<lparr>match_id = dict_get event_data ''matchID'', event_type = UNKNOWN, payload = NoPayload,
              timestamp = dict_get event_data ''timestamp''\<rparr> s = (s, None)
     \<and> (raw_events s (redis_game_events_namespace @ '':event:'' @ event_id) = event_data \<longrightarrow>
          process_game_event L event_id s = (s, None))"
proof
  assume u: "unrecognized event_data"
  then have ty: "(case dict_get event_data ''type'' of None \<Rightarrow> UNKNOWN | Some v \<Rightarrow> validate_type v) = UNKNOWN"
    by (auto simp: unrecognized_def validate_type_unrecognized split: option.splits)
  have p: "parse_event L event_data payload_data
       = Inr \<lparr>match_id = dict_get event_data ''matchID'', event_type = UNKNOWN, payload = NoPayload,
              timestamp = dict_get event_data ''timestamp''\<rparr>" for payload_data
    by (simp add: parse_event_def ty resolve_payload_def)
  have q: "process_event L \<lparr>match_id = dict_get event_data ''matchID'', event_type = UNKNOWN, payload = NoPayload,
              timestamp = dict_get event_data ''timestamp''\<rparr> s = (s, None)"
    by (simp add: process_event_def step_ok_def)
  have r: "process_game_event L event_id s = (s, None)"
    if "raw_events s (redis_game_events_namespace @ '':event:'' @ event_id) = event_data"
    using that p q by (simp add: process_game_event_def Let_def split: option.splits)
  show "parse_event L event_data payload_data
       = Inr \<lparr>match_id = dict_get event_data ''matchID'', event_type = UNKNOWN, payload = NoPayload,
              timestamp = dict_get event_data ''timestamp''\<rparr>
     \<and> process_event L \<lparr>match_id = dict_get event_data ''matchID'', event_type = UNKNOWN, payload = NoPayload,
              timestamp = dict_get event_data ''timestamp''\<rparr> s = (s, None)
     \<and> (raw_events s (redis_game_events_namespace @ '':event:'' @ event_id) = event_data \<longrightarrow>
          process_game_event L event_id s = (s, None))"
    using p q r by blast
qed

theorem unknown_event_dropped_witness:
  "unrecognized sample_unknown_data
   \<and> process_game_event sample_lib ''e1'' sample_unknown_state = (sample_unknown_state, None)"
proof -
  have u: "unrecognized sample_unknown_data"
    by (simp add: unrecognized_def sample_unknown_data_def dict_get_def recognized_types_def)
  have r: "raw_events sample_unknown_state (redis_game_events_namespace @ '':event:'' @ ''e1'') = sample_unknown_data"
    by (simp add: sample_unknown_state_def redis_game_events_namespace_def)
  from unknown_event_dropped [of sample_unknown_data sample_lib _ sample_unknown_state "''e1''"] u r
  show ?thesis by blast
qed

section \<open>Missing optional fields\<close>

text \<open>
  Claim C4 fails on the code at the two events it names. A \<open>MINION_KILL\<close> with \<open>goldGranted\<close>
  and no timestamp raises \<open>TypeError\<close> from \<open>datetime.fromisoformat(None)\<close>, after the gold and
  the \<open>minion_kills\<close> counter were incremented and before the kill history is written. A
  \<open>PLAYER_KILL\<close> with assistants and no \<open>assistGold\<close> raises \<open>DataError\<close> from
  \<open>hincrby(key, "gold", None)\<close>: the assist is not counted, the victim's death and the first
  blood are not recorded.
\<close>

theorem missing_optional_field_raises:
  "snd (process_event sample_lib minion_no_timestamp sample_state) = Some TypeError
   \<and> hashes (fst (process_event sample_lib minion_no_timestamp sample_state))
        ''game_state:game:game_1:player:player_1'' ''minion_kills'' = Some (RInt 1)
   \<and> kill_zsets (fst (process_event sample_lib minion_no_timestamp sample_state))
        ''game_state:game:game_1:player:player_1:kill_history'' = []
   \<and> snd (process_event sample_lib kill_no_assist_gold sample_state) = Some DataError
   \<and> hashes (fst (process_event sample_lib kill_no_assist_gold sample_state))
        ''game_state:game:game_1:player:player_2'' ''human_kills_assists'' = Some (RInt 0)
   \<and> death_zsets (fst (process_event sample_lib kill_no_assist_gold sample_state))
        ''game_state:game:game_1:player:player_3:death_history'' = []
   \<and> hashes (fst (process_event sample_lib kill_no_assist_gold sample_state))
        ''game_state:game:game_1'' ''first_blood'' = Some (RInt (- 1))"
  by code_simp

section \<open>Match start\<close>

lemma for_each_append:
  "for_each (xs @ ys) f s = (case for_each xs f s of (s', None) \<Rightarrow> for_each ys f s' | (s', Some e) \<Rightarrow> (s', Some e))"
  by (induction xs arbitrary: s) (auto split: prod.splits option.splits)

lemma for_each_map: "for_each (map g xs) f = for_each xs (\<lambda>x. f (g x))"
proof
  fix s show "for_each (map g xs) f s = for_each xs (\<lambda>x. f (g x)) s"
    by (induction xs arbitrary: s) (auto split: prod.splits option.splits)
qed

lemma for_each_nested:
  "for_each xs (\<lambda>x. for_each (g x) (f x)) s
     = for_each (concat (map (\<lambda>x. map (Pair x) (g x)) xs)) (\<lambda>(x, y). f x y) s"
proof (induction xs arbitrary: s)
  case Nil
  show ?case by simp
next
  case (Cons x xs)
  have m: "for_each (map (Pair x) (g x)) (\<lambda>(x, y). f x y) = for_each (g x) (f x)"
    by (simp add: for_each_map)
  show ?case
    by (simp add: for_each_append m Cons.IH split: prod.splits option.splits)
qed

lemma preserves_for_each_set:
  assumes "\<And>s. R s s" and "\<And>a b c. R a b \<Longrightarrow> R b c \<Longrightarrow> R a c" and "\<And>x. x \<in> set xs \<Longrightarrow> preserves R (f x)"
  shows "preserves R (for_each xs f)"
  unfolding preserves_def using assms(3)
proof (induction xs)
  case Nil
  show ?case using assms(1) by simp
next
  case (Cons x xs)
  show ?case
  proof
    fix s
    obtain s1 r where f: "f x s = (s1, r)" by (cases "f x s")
    from Cons.prems f have 1: "R s s1" by (metis fst_conv preserves_def list.set_intros(1))
    from Cons have 2: "R s1 (fst (for_each xs f s1))" by simp
    show "R s (fst (for_each (x # xs) f s))"
      using f 1 2 assms(2) by (cases r) auto
  qed
qed

lemma fold_upd_in:
  "distinct (map fst mapping) \<Longrightarrow> (f, v) \<in> set mapping \<Longrightarrow>
   fold (\<lambda>(f, v) h. h(f \<mapsto> v)) mapping h f = Some v"
proof (induction mapping arbitrary: h)
  case Nil
  then show ?case by simp
next
  case (Cons a mapping)
  show ?case
  proof (cases "(f, v) = a")
    case True
    with Cons.prems have "f \<notin> fst ` set mapping" by force
    then have "fold (\<lambda>(f, v) h. h(f \<mapsto> v)) mapping (h(f \<mapsto> v)) f = (h(f \<mapsto> v)) f"
      by (rule fold_upd_other)
    then show ?thesis unfolding True [symmetric] by (simp only: fold_simps comp_apply prod.case fun_upd_same)
  next
    case False
    with Cons show ?thesis by auto
  qed
qed

lemma hset_result:
  "mapping \<noteq> [] \<Longrightarrow> RNone \<notin> snd ` set mapping \<Longrightarrow>
   hset key mapping s
     = (s\<lparr>hashes := (hashes s)(key := fold (\<lambda>(field, v) h. h(field \<mapsto> v)) mapping (hashes s key))\<rparr>, None)"
  by (simp add: hset_def)

lemma get_team_state_key_explicit: "get_team_state_key (Some t) (Some m) s = Inr (team_key m t)"
  by (simp add: get_team_state_key_def team_key_def py_str_def)

lemma get_player_state_key_registered:
  "get_match_id_for_player (registry s) (Some p) = Some m \<Longrightarrow> get_player_state_key p None s = Inr (player_key m p)"
  by (simp add: get_player_state_key_def player_key_def)

lemma match_metadata_ok: "match_id event = Some m \<Longrightarrow> RNone \<notin> snd ` set (match_metadata event pl)"
  by (auto simp: match_metadata_def opt_str_def)

lemma player_metadata_ok: "RNone \<notin> snd ` set (player_metadata team player)"
  by (auto simp: player_metadata_def)

lemma MatchStartProcessor_loops:
  assumes "match_id event = Some m"
  shows "MatchStartProcessor event pl
     = step_seq (hset (get_game_state_key (Some m)) (match_metadata event pl))
         (step_seq (for_each (teams pl) (start_team_step m)) (for_each (start_pairs pl) (start_player_step m)))"
proof -
  have "for_each (teams pl) (\<lambda>team. for_each (players team) (\<lambda>player.
          step_seq (register_step (MatchPlayer.player_id player) m (team_id team))
            (step_read (get_player_state_key (MatchPlayer.player_id player) None) (\<lambda>player_key.
               hset player_key (player_metadata team player)))))
        = for_each (start_pairs pl) (start_player_step m)"
  proof
    fix s
    have e: "(\<lambda>(team, player). step_seq (register_step (MatchPlayer.player_id player) m (team_id team))
            (step_read (get_player_state_key (MatchPlayer.player_id player) None) (\<lambda>player_key.
               hset player_key (player_metadata team player)))) = start_player_step m"
      by (auto simp: start_player_step_def)
    show "for_each (teams pl) (\<lambda>team. for_each (players team) (\<lambda>player.
          step_seq (register_step (MatchPlayer.player_id player) m (team_id team))
            (step_read (get_player_state_key (MatchPlayer.player_id player) None) (\<lambda>player_key.
               hset player_key (player_metadata team player))))) s
        = for_each (start_pairs pl) (start_player_step m) s"
      unfolding start_pairs_def e [symmetric] by (rule for_each_nested)
  qed
  then show ?thesis
    using assms by (simp add: MatchStartProcessor_def start_team_step_def [abs_def])
qed

lemma start_team_step_eq:
  "start_team_step m team s
     = (s\<lparr>hashes := (hashes s)(team_key m (team_id team) :=
            (hashes s (team_key m (team_id team)))(''dragon_kills'' \<mapsto> RInt 0, ''tower_kills'' \<mapsto> RInt 0))\<rparr>, None)"
  by (simp add: start_team_step_def step_read_def get_team_state_key_explicit hset_def team_metadata_def)

lemma start_player_step_eq:
  "start_player_step m (team, player) s
     = (s\<lparr>registry := register_player (MatchPlayer.player_id player) m (team_id team) (registry s),
           hashes := (hashes s)(player_key m (MatchPlayer.player_id player) :=
             fold (\<lambda>(field, v) h. h(field \<mapsto> v)) (player_metadata team player)
               (hashes s (player_key m (MatchPlayer.player_id player))))\<rparr>, None)"
proof -
  let ?s1 = "s\<lparr>registry := register_player (MatchPlayer.player_id player) m (team_id team) (registry s)\<rparr>"
  have "get_match_id_for_player (registry ?s1) (Some (MatchPlayer.player_id player)) = Some m"
    by (simp add: get_match_id_for_player_def register_player_def dict_get_set_same)
  then have k: "get_player_state_key (MatchPlayer.player_id player) None ?s1
      = Inr (player_key m (MatchPlayer.player_id player))"
    by (rule get_player_state_key_registered)
  have ne: "player_metadata team player \<noteq> []" by (simp add: player_metadata_def)
  show ?thesis
    by (simp add: start_player_step_def step_seq_def register_step_def step_read_def k
        hset_result [OF ne player_metadata_ok])
qed

lemma for_each_ok: "(\<And>x s. snd (f x s) = None) \<Longrightarrow> snd (for_each xs f s) = None"
proof (induction xs arbitrary: s)
  case Nil
  show ?case by simp
next
  case (Cons x xs)
  obtain s1 r where f: "f x s = (s1, r)" by (cases "f x s")
  with Cons.prems [of x s] have "r = None" by simp
  with f Cons show ?case by simp
qed

lemma team_loop_ok: "snd (for_each ts (start_team_step m) s) = None"
  by (rule for_each_ok) (simp add: start_team_step_eq)

lemma player_loop_ok: "snd (for_each ps (start_player_step m) s) = None"
proof (rule for_each_ok)
  fix x s show "snd (start_player_step m x s) = None"
    by (cases x) (simp add: start_player_step_eq)
qed

lemma step_seq_ok:
  "snd (f s) = None \<Longrightarrow> step_seq f g s = g (fst (f s))"
  by (cases "f s") (simp add: step_seq_def)

lemma for_each_append_ok:
  "snd (for_each xs f s) = None \<Longrightarrow> for_each (xs @ ys) f s = for_each ys f (fst (for_each xs f s))"
  by (cases "for_each xs f s") (simp add: for_each_append)

lemma player_key_inj: "player_key m p = player_key m q \<Longrightarrow> p = q"
  by (simp add: player_key_def)

lemma register_frame: "preserves (hash_frame P) (register_step p m t)"
  by (simp add: preserves_def hash_frame_def register_step_def)

lemma start_team_step_frame:
  "(\<And>k. \<not> P k ''dragon_kills'') \<Longrightarrow> (\<And>k. \<not> P k ''tower_kills'') \<Longrightarrow>
   preserves (hash_frame P) (start_team_step m team)"
  unfolding start_team_step_def
  by (intro frame_rules hset_frame) (auto simp: team_metadata_def)

lemma start_player_step_frame:
  "(\<And>k f. f \<in> fst ` set (player_metadata (fst tp) (snd tp)) \<Longrightarrow> \<not> P k f) \<Longrightarrow>
   preserves (hash_frame P) (start_player_step m tp)"
  unfolding start_player_step_def
  by (intro frame_rules hset_frame register_frame) auto

lemma player_metadata_fields:
  "fst ` set (player_metadata team player)
     = {''player_id'', ''gold'', ''alive'', ''name'', ''minion_kills'', ''human_kills'',
        ''human_kills_assists'', ''team_members''}"
  by (auto simp: player_metadata_def)

lemma team_loop_zero:
  "team \<in> set ts \<or> hashes s (team_key m (team_id team)) f = Some (RInt 0) \<Longrightarrow>
   f = ''dragon_kills'' \<or> f = ''tower_kills'' \<Longrightarrow>
   hashes (fst (for_each ts (start_team_step m) s)) (team_key m (team_id team)) f = Some (RInt 0)"
proof (induction ts arbitrary: s)
  case Nil
  then show ?case by simp
next
  case (Cons x xs)
  let ?s1 = "fst (start_team_step m x s)"
  have "team \<in> set xs \<or> hashes ?s1 (team_key m (team_id team)) f = Some (RInt 0)"
    using Cons.prems by (auto simp: start_team_step_eq)
  from Cons.IH [OF this Cons.prems(2)] show ?case
    by (simp add: start_team_step_eq)
qed

lemma player_loop_frame:
  "p \<notin> MatchPlayer.player_id ` snd ` set ys \<Longrightarrow>
   hashes (fst (for_each ys (start_player_step m) s)) (player_key m p) = hashes s (player_key m p)
   \<and> dict_get (reg_matches (registry (fst (for_each ys (start_player_step m) s)))) p
       = dict_get (reg_matches (registry s)) p"
proof (induction ys arbitrary: s)
  case Nil
  show ?case by simp
next
  case (Cons y ys)
  obtain team player where y: "y = (team, player)" by (cases y)
  with Cons.prems have ne: "p \<noteq> MatchPlayer.player_id player" and rest: "p \<notin> MatchPlayer.player_id ` snd ` set ys"
    by auto
  from ne have k: "player_key m p \<noteq> player_key m (MatchPlayer.player_id player)"
    using player_key_inj by blast
  let ?s1 = "fst (start_player_step m y s)"
  have 1: "hashes ?s1 (player_key m p) = hashes s (player_key m p)"
    using k by (simp add: y start_player_step_eq)
  have 2: "dict_get (reg_matches (registry ?s1)) p = dict_get (reg_matches (registry s)) p"
    using ne by (simp add: y start_player_step_eq register_player_def dict_get_set_other)
  from Cons.IH [OF rest, of ?s1] 1 2 show ?case
    by (simp add: y start_player_step_eq)
qed

lemma player_loop_last:
  assumes "ps = xs @ (team, player) # ys" and "MatchPlayer.player_id player \<notin> MatchPlayer.player_id ` snd ` set ys"
  shows "hashes (fst (for_each ps (start_player_step m) s)) (player_key m (MatchPlayer.player_id player))
           = fold (\<lambda>(field, v) h. h(field \<mapsto> v)) (player_metadata team player)
               (hashes (fst (for_each xs (start_player_step m) s)) (player_key m (MatchPlayer.player_id player)))
    \<and> dict_get (reg_matches (registry (fst (for_each ps (start_player_step m) s)))) (MatchPlayer.player_id player)
           = Some (m, team_id team)"
proof -
  let ?sx = "fst (for_each xs (start_player_step m) s)"
  let ?s1 = "fst (start_player_step m (team, player) ?sx)"
  have "for_each ps (start_player_step m) s = for_each ((team, player) # ys) (start_player_step m) ?sx"
    unfolding assms(1) by (rule for_each_append_ok) (rule player_loop_ok)
  then have e: "for_each ps (start_player_step m) s = for_each ys (start_player_step m) ?s1"
    by (simp add: start_player_step_eq)
  from player_loop_frame [OF assms(2), of m ?s1] show ?thesis
    unfolding e by (simp add: start_player_step_eq register_player_def dict_get_set_same)
qed

lemma player_loop_team:
  "(team, player) \<in> set ps \<or> dict_get (reg_teams (registry s)) (team_id team) = Some m \<Longrightarrow>
   dict_get (reg_teams (registry (fst (for_each ps (start_player_step m) s)))) (team_id team) = Some m"
proof (induction ps arbitrary: s)
  case Nil
  then show ?case by simp
next
  case (Cons y ys)
  obtain t q where y: "y = (t, q)" by (cases y)
  let ?s1 = "fst (start_player_step m y s)"
  have "(team, player) \<in> set ys \<or> dict_get (reg_teams (registry ?s1)) (team_id team) = Some m"
  proof (cases "team_id t = team_id team")
    case True
    then show ?thesis
      by (simp add: y start_player_step_eq register_player_def dict_get_set_same)
  next
    case False
    with Cons.prems show ?thesis
      by (auto simp: y start_player_step_eq register_player_def dict_get_set_other)
  qed
  from Cons.IH [OF this] show ?case
    by (simp add: y start_player_step_eq)
qed

lemma match_metadata_distinct: "distinct (map fst (match_metadata event pl))"
  by (simp add: match_metadata_def)

lemma player_metadata_distinct: "distinct (map fst (player_metadata team player))"
  by (simp add: player_metadata_def)

lemma MatchStartProcessor_states:
  fixes event :: GameEvent and pl :: MatchStartPayload and s :: game_state and m :: string
  assumes "match_id event = Some m"
  defines "s1 \<equiv> fst (hset (get_game_state_key (Some m)) (match_metadata event pl) s)"
  defines "s2 \<equiv> fst (for_each (teams pl) (start_team_step m) s1)"
  shows "MatchStartProcessor event pl s = (fst (for_each (start_pairs pl) (start_player_step m) s2), None)"
    and "hashes s1 (get_game_state_key (Some m))
           = fold (\<lambda>(field, v) h. h(field \<mapsto> v)) (match_metadata event pl) (hashes s (get_game_state_key (Some m)))"
proof -
  have ne: "match_metadata event pl \<noteq> []" by (simp add: match_metadata_def)
  note h = hset_result [OF ne match_metadata_ok [OF assms(1)], of "get_game_state_key (Some m)" s]
  from h show "hashes s1 (get_game_state_key (Some m))
           = fold (\<lambda>(field, v) h. h(field \<mapsto> v)) (match_metadata event pl) (hashes s (get_game_state_key (Some m)))"
    by (simp add: s1_def)
  have a: "step_seq (hset (get_game_state_key (Some m)) (match_metadata event pl))
         (step_seq (for_each (teams pl) (start_team_step m)) (for_each (start_pairs pl) (start_player_step m))) s
        = step_seq (for_each (teams pl) (start_team_step m)) (for_each (start_pairs pl) (start_player_step m)) s1"
    unfolding s1_def by (rule step_seq_ok) (simp add: h)
  have b: "step_seq (for_each (teams pl) (start_team_step m)) (for_each (start_pairs pl) (start_player_step m)) s1
        = for_each (start_pairs pl) (start_player_step m) s2"
    unfolding s2_def by (rule step_seq_ok) (rule team_loop_ok)
  have c: "for_each (start_pairs pl) (start_player_step m) s2
        = (fst (for_each (start_pairs pl) (start_player_step m) s2), None)"
    using player_loop_ok [of "start_pairs pl" m s2]
    by (cases "for_each (start_pairs pl) (start_player_step m) s2") simp
  show "MatchStartProcessor event pl s = (fst (for_each (start_pairs pl) (start_player_step m) s2), None)"
    unfolding MatchStartProcessor_loops [OF assms(1)] a b by (rule c)
qed

lemma hash_frameD: "hash_frame P s s' \<Longrightarrow> P k f \<Longrightarrow> hashes s' k f = hashes s k f"
  by (simp add: hash_frame_def)

lemma match_start_frames:
  assumes "\<And>k. \<not> P k ''dragon_kills''" "\<And>k. \<not> P k ''tower_kills''"
    and "\<And>k f. f \<in> {''player_id'', ''gold'', ''alive'', ''name'', ''minion_kills'', ''human_kills'',
        ''human_kills_assists'', ''team_members''} \<Longrightarrow> \<not> P k f"
  shows "hash_frame P s1 (fst (for_each ps (start_player_step m) (fst (for_each ts (start_team_step m) s1))))"
proof -
  have t: "preserves (hash_frame P) (for_each ts (start_team_step m))"
    by (intro frame_rules start_team_step_frame assms)
  have p: "preserves (hash_frame P) (for_each ps (start_player_step m))"
  proof (intro frame_rules start_player_step_frame)
    fix x :: "MatchTeam \<times> MatchPlayer" and k f
    assume "f \<in> fst ` set (player_metadata (fst x) (snd x))"
    then have "f \<in> {''player_id'', ''gold'', ''alive'', ''name'', ''minion_kills'', ''human_kills'',
        ''human_kills_assists'', ''team_members''}"
      by (simp only: player_metadata_fields)
    then show "\<not> P k f" by (rule assms(3))
  qed
  from t have "hash_frame P s1 (fst (for_each ts (start_team_step m) s1))"
    by (simp add: preserves_def)
  moreover from p have "hash_frame P (fst (for_each ts (start_team_step m) s1))
      (fst (for_each ps (start_player_step m) (fst (for_each ts (start_team_step m) s1))))"
    by (simp add: preserves_def)
  ultimately show ?thesis by (rule hash_frame_trans)
qed

lemma player_loop_team_frame:
  "hash_frame (\<lambda>k f. f = ''dragon_kills'' \<or> f = ''tower_kills'') s2 (fst (for_each ps (start_player_step m) s2))"
proof -
  have "preserves (hash_frame (\<lambda>k f. f = ''dragon_kills'' \<or> f = ''tower_kills'')) (for_each ps (start_player_step m))"
    by (intro frame_rules start_player_step_frame) (auto simp: player_metadata_fields)
  then show ?thesis by (simp add: preserves_def)
qed

lemma match_start_result:
  assumes "event_type event = MATCH_START" and "payload event = MatchStartP pl" and "match_id event = Some m"
  shows "process_event L event s
     = (fst (for_each (start_pairs pl) (start_player_step m)
          (fst (for_each (teams pl) (start_team_step m)
             (fst (hset (get_game_state_key (Some m)) (match_metadata event pl) s))))), None)"
  using MatchStartProcessor_states(1) [OF assms(3), of pl s] by (simp add: process_event_def assms(1,2))

lemma match_start_player:
  assumes "event_type event = MATCH_START" and "payload event = MatchStartP pl" and "match_id event = Some m"
    and "start_pairs pl = before @ (team, player) # after"
    and "MatchPlayer.player_id player \<notin> MatchPlayer.player_id ` snd ` set after"
    and "(f, v) \<in> set (player_metadata team player)"
  shows "hashes (fst (process_event L event s)) (player_key m (MatchPlayer.player_id player)) f = Some v
      \<and> get_match_id_for_player (registry (fst (process_event L event s))) (Some (MatchPlayer.player_id player)) = Some m
      \<and> get_team_id (registry (fst (process_event L event s))) (Some (MatchPlayer.player_id player)) = Some (team_id team)"
proof -
  let ?s2 = "fst (for_each (teams pl) (start_team_step m)
             (fst (hset (get_game_state_key (Some m)) (match_metadata event pl) s)))"
  note l = player_loop_last [OF assms(4,5), of m ?s2]
  from l have "hashes (fst (for_each (start_pairs pl) (start_player_step m) ?s2))
      (player_key m (MatchPlayer.player_id player)) f = Some v"
    using fold_upd_in [OF player_metadata_distinct assms(6)] by simp
  with l show ?thesis
    by (simp add: match_start_result [OF assms(1,2,3)] get_match_id_for_player_def get_team_id_def)
qed

text \<open>
  Claim C6, as amended. A \<open>MATCH_START\<close> event that carries a \<open>matchID\<close> is processed without
  an exception, and in the state it leaves: the match hash holds the fields of the event
  with \<open>first_blood\<close> the integer \<open>-1\<close> (text \<open>-1\<close>), and its \<open>winning_team_id\<close> is what it was
  before (the mapping written has no such field); the hash of every team holds
  \<open>dragon_kills\<close> 0 and \<open>tower_kills\<close> 0; for a player of a team (the last listing, if the
  player id is listed more than once) the player hash holds the id, gold, alive (as 0 or 1)
  and name of the payload, the three counters at 0 and \<open>team_members\<close> the JSON list of the
  other player ids of the team, and the registry maps the player to the match and the team;
  and the registry maps to the match every team that has a player.
\<close>

theorem match_start_writes:
  "event_type event = MATCH_START \<and> payload event = MatchStartP pl \<and> match_id event = Some m
   \<and> s' = fst (process_event L event s) \<longrightarrow>
     snd (process_event L event s) = None
     \<and> hashes s' (get_game_state_key (Some m)) ''match_id'' = Some (RStr m)
     \<and> hashes s' (get_game_state_key (Some m)) ''start_time'' = Some (RStr (start_time (fixture pl)))
     \<and> hashes s' (get_game_state_key (Some m)) ''title'' = Some (RStr (title (fixture pl)))
     \<and> hashes s' (get_game_state_key (Some m)) ''series_current'' = Some (RInt (series_current (fixture pl)))
     \<and> hashes s' (get_game_state_key (Some m)) ''series_max'' = Some (RInt (series_max (fixture pl)))
     \<and> hashes s' (get_game_state_key (Some m)) ''series_type'' = Some (RStr (series_type (fixture pl)))
     \<and> hashes s' (get_game_state_key (Some m)) ''teams''
         = Some (RJson (JList (map (\<lambda>team.
              JObj [(''team_id'', JStr (team_id team)),
                    (''players'', JList (map (\<lambda>player. JStr (MatchPlayer.player_id player)) (players team)))])
              (teams pl))))
     \<and> hashes s' (get_game_state_key (Some m)) ''first_blood'' = Some (RInt (- 1))
     \<and> ''winning_team_id'' \<notin> fst ` set (match_metadata event pl)
     \<and> hashes s' (get_game_state_key (Some m)) ''winning_team_id''
         = hashes s (get_game_state_key (Some m)) ''winning_team_id''
     \<and> (\<forall>team\<in>set (teams pl).
           hashes s' (team_key m (team_id team)) ''dragon_kills'' = Some (RInt 0)
           \<and> hashes s' (team_key m (team_id team)) ''tower_kills'' = Some (RInt 0))
     \<and> (\<forall>tp\<in>set (start_pairs pl). get_match_id_for_team (registry s') (Some (team_id (fst tp))) = Some m)
     \<and> (start_pairs pl = before @ (team, player) # after
          \<and> MatchPlayer.player_id player \<notin> MatchPlayer.player_id ` snd ` set after \<longrightarrow>
            hashes s' (player_key m (MatchPlayer.player_id player)) ''player_id''
              = Some (RStr (MatchPlayer.player_id player))
          \<and> hashes s' (player_key m (MatchPlayer.player_id player)) ''gold'' = Some (RInt (gold player))
          \<and> hashes s' (player_key m (MatchPlayer.player_id player)) ''alive''
              = Some (RInt (if alive player then 1 else 0))
          \<and> hashes s' (player_key m (MatchPlayer.player_id player)) ''name'' = Some (RStr (name player))
          \<and> hashes s' (player_key m (MatchPlayer.player_id player)) ''minion_kills'' = Some (RInt 0)
          \<and> hashes s' (player_key m (MatchPlayer.player_id player)) ''human_kills'' = Some (RInt 0)
          \<and> hashes s' (player_key m (MatchPlayer.player_id player)) ''human_kills_assists'' = Some (RInt 0)
          \<and> hashes s' (player_key m (MatchPlayer.player_id player)) ''team_members''
              = Some (RJson (JList (map JStr (filter (\<lambda>p. p \<noteq> MatchPlayer.player_id player)
                    (map MatchPlayer.player_id (players team))))))
          \<and> get_match_id_for_player (registry s') (Some (MatchPlayer.player_id player)) = Some m
          \<and> get_team_id (registry s') (Some (MatchPlayer.player_id player)) = Some (team_id team))"
  (is "_ \<longrightarrow> ?concl")
proof (intro impI, elim conjE)
  assume ty: "event_type event = MATCH_START" and pay: "payload event = MatchStartP pl"
    and mid: "match_id event = Some m" and s': "s' = fst (process_event L event s)"
  let ?gk = "get_game_state_key (Some m)"
  let ?s1 = "fst (hset ?gk (match_metadata event pl) s)"
  let ?s2 = "fst (for_each (teams pl) (start_team_step m) ?s1)"
  let ?s3 = "fst (for_each (start_pairs pl) (start_player_step m) ?s2)"
  have pe: "process_event L event s = MatchStartProcessor event pl s"
    by (simp add: process_event_def ty pay)
  note st = MatchStartProcessor_states [OF mid, of pl s]
  have s3: "s' = ?s3" and ok: "snd (process_event L event s) = None"
    by (simp_all add: s' pe st(1))
  \<comment> \<open>the match hash\<close>
  have fr: "hash_frame (\<lambda>k f. f \<in> {''match_id'', ''start_time'', ''title'', ''series_current'', ''series_max'',
      ''series_type'', ''teams'', ''first_blood'', ''winning_team_id''}) ?s1 ?s3"
    by (rule match_start_frames) auto
  have m1: "hashes ?s1 ?gk f = Some v" if "(f, v) \<in> set (match_metadata event pl)" for f v
    unfolding st(2) using match_metadata_distinct that by (rule fold_upd_in)
  have nw: "''winning_team_id'' \<notin> fst ` set (match_metadata event pl)"
    by (auto simp: match_metadata_def)
  have w1: "hashes ?s1 ?gk ''winning_team_id'' = hashes s ?gk ''winning_team_id''"
    unfolding st(2) using nw by (rule fold_upd_other)
  have mf: "hashes s' ?gk f = Some v"
    if "(f, v) \<in> set (match_metadata event pl)" for f v
  proof -
    from that have "f \<in> {''match_id'', ''start_time'', ''title'', ''series_current'', ''series_max'',
      ''series_type'', ''teams'', ''first_blood'', ''winning_team_id''}"
      by (auto simp: match_metadata_def)
    with fr have "hashes ?s3 ?gk f = hashes ?s1 ?gk f" by (rule hash_frameD)
    with m1 [OF that] s3 show ?thesis by simp
  qed
  have wf: "hashes s' ?gk ''winning_team_id'' = hashes s ?gk ''winning_team_id''"
    using hash_frameD [OF fr, where k = ?gk and f = "''winning_team_id''"] w1 s3 by simp
  \<comment> \<open>the team hashes\<close>
  have tz: "hashes s' (team_key m (team_id team)) f = Some (RInt 0)"
    if "team \<in> set (teams pl)" "f = ''dragon_kills'' \<or> f = ''tower_kills''" for team f
  proof -
    have "hashes ?s2 (team_key m (team_id team)) f = Some (RInt 0)"
      using that by (intro team_loop_zero) auto
    moreover have "hashes ?s3 (team_key m (team_id team)) f = hashes ?s2 (team_key m (team_id team)) f"
      by (rule hash_frameD [OF player_loop_team_frame]) (rule that(2))
    ultimately show ?thesis using s3 by simp
  qed
  \<comment> \<open>the registry of teams\<close>
  have tr: "get_match_id_for_team (registry s') (Some (team_id (fst tp))) = Some m"
    if "tp \<in> set (start_pairs pl)" for tp
  proof -
    from that have "(fst tp, snd tp) \<in> set (start_pairs pl)" by simp
    then have "dict_get (reg_teams (registry ?s3)) (team_id (fst tp)) = Some m"
      by (intro player_loop_team) blast
    then show ?thesis by (simp add: s3 get_match_id_for_team_def)
  qed
  \<comment> \<open>the players\<close>
  have pf: "hashes s' (player_key m (MatchPlayer.player_id player)) f = Some v
      \<and> get_match_id_for_player (registry s') (Some (MatchPlayer.player_id player)) = Some m
      \<and> get_team_id (registry s') (Some (MatchPlayer.player_id player)) = Some (team_id team)"
    if sp: "start_pairs pl = before @ (team, player) # after"
      "MatchPlayer.player_id player \<notin> MatchPlayer.player_id ` snd ` set after"
      and fv: "(f, v) \<in> set (player_metadata team player)" for f v
    unfolding s' by (rule match_start_player [OF ty pay mid sp fv])
  have a: "hashes s' ?gk ''match_id'' = Some (RStr m)"
    "hashes s' ?gk ''start_time'' = Some (RStr (start_time (fixture pl)))"
    "hashes s' ?gk ''title'' = Some (RStr (title (fixture pl)))"
    "hashes s' ?gk ''series_current'' = Some (RInt (series_current (fixture pl)))"
    "hashes s' ?gk ''series_max'' = Some (RInt (series_max (fixture pl)))"
    "hashes s' ?gk ''series_type'' = Some (RStr (series_type (fixture pl)))"
    "hashes s' ?gk ''teams''
         = Some (RJson (JList (map (\<lambda>team.
              JObj [(''team_id'', JStr (team_id team)),
                    (''players'', JList (map (\<lambda>player. JStr (MatchPlayer.player_id player)) (players team)))])
              (teams pl))))"
    "hashes s' ?gk ''first_blood'' = Some (RInt (- 1))"
    by (rule mf, simp add: match_metadata_def mid opt_str_def)+
  have t: "\<forall>team\<in>set (teams pl).
           hashes s' (team_key m (team_id team)) ''dragon_kills'' = Some (RInt 0)
           \<and> hashes s' (team_key m (team_id team)) ''tower_kills'' = Some (RInt 0)"
    using tz by blast
  have r: "\<forall>tp\<in>set (start_pairs pl). get_match_id_for_team (registry s') (Some (team_id (fst tp))) = Some m"
    using tr by blast
  have p: "start_pairs pl = before @ (team, player) # after
          \<and> MatchPlayer.player_id player \<notin> MatchPlayer.player_id ` snd ` set after \<longrightarrow>
            hashes s' (player_key m (MatchPlayer.player_id player)) ''player_id''
              = Some (RStr (MatchPlayer.player_id player))
          \<and> hashes s' (player_key m (MatchPlayer.player_id player)) ''gold'' = Some (RInt (gold player))
          \<and> hashes s' (player_key m (MatchPlayer.player_id player)) ''alive''
              = Some (RInt (if alive player then 1 else 0))
          \<and> hashes s' (player_key m (MatchPlayer.player_id player)) ''name'' = Some (RStr (name player))
          \<and> hashes s' (player_key m (MatchPlayer.player_id player)) ''minion_kills'' = Some (RInt 0)
          \<and> hashes s' (player_key m (MatchPlayer.player_id player)) ''human_kills'' = Some (RInt 0)
          \<and> hashes s' (player_key m (MatchPlayer.player_id player)) ''human_kills_assists'' = Some (RInt 0)
          \<and> hashes s' (player_key m (MatchPlayer.player_id player)) ''team_members''
              = Some (RJson (JList (map JStr (filter (\<lambda>p. p \<noteq> MatchPlayer.player_id player)
                    (map MatchPlayer.player_id (players team))))))
          \<and> get_match_id_for_player (registry s') (Some (MatchPlayer.player_id player)) = Some m
          \<and> get_team_id (registry s') (Some (MatchPlayer.player_id player)) = Some (team_id team)"
  proof (intro impI, elim conjE)
    assume sp: "start_pairs pl = before @ (team, player) # after"
      "MatchPlayer.player_id player \<notin> MatchPlayer.player_id ` snd ` set after"
    note q = pf [OF sp]
    have f: "hashes s' (player_key m (MatchPlayer.player_id player)) ''player_id''
              = Some (RStr (MatchPlayer.player_id player))"
      "hashes s' (player_key m (MatchPlayer.player_id player)) ''gold'' = Some (RInt (gold player))"
      "hashes s' (player_key m (MatchPlayer.player_id player)) ''alive''
              = Some (RInt (if alive player then 1 else 0))"
      "hashes s' (player_key m (MatchPlayer.player_id player)) ''name'' = Some (RStr (name player))"
      "hashes s' (player_key m (MatchPlayer.player_id player)) ''minion_kills'' = Some (RInt 0)"
      "hashes s' (player_key m (MatchPlayer.player_id player)) ''human_kills'' = Some (RInt 0)"
      "hashes s' (player_key m (MatchPlayer.player_id player)) ''human_kills_assists'' = Some (RInt 0)"
      "hashes s' (player_key m (MatchPlayer.player_id player)) ''team_members''
              = Some (RJson (JList (map JStr (filter (\<lambda>p. p \<noteq> MatchPlayer.player_id player)
                    (map MatchPlayer.player_id (players team))))))"
      by (rule q [THEN conjunct1], simp add: player_metadata_def)+
    have g: "get_match_id_for_player (registry s') (Some (MatchPlayer.player_id player)) = Some m"
      "get_team_id (registry s') (Some (MatchPlayer.player_id player)) = Some (team_id team)"
      using q [of "''gold''" "RInt (gold player)"] by (simp_all add: player_metadata_def)
    from f g show "hashes s' (player_key m (MatchPlayer.player_id player)) ''player_id''
              = Some (RStr (MatchPlayer.player_id player))
          \<and> hashes s' (player_key m (MatchPlayer.player_id player)) ''gold'' = Some (RInt (gold player))
          \<and> hashes s' (player_key m (MatchPlayer.player_id player)) ''alive''
              = Some (RInt (if alive player then 1 else 0))
          \<and> hashes s' (player_key m (MatchPlayer.player_id player)) ''name'' = Some (RStr (name player))
          \<and> hashes s' (player_key m (MatchPlayer.player_id player)) ''minion_kills'' = Some (RInt 0)
          \<and> hashes s' (player_key m (MatchPlayer.player_id player)) ''human_kills'' = Some (RInt 0)
          \<and> hashes s' (player_key m (MatchPlayer.player_id player)) ''human_kills_assists'' = Some (RInt 0)
          \<and> hashes s' (player_key m (MatchPlayer.player_id player)) ''team_members''
              = Some (RJson (JList (map JStr (filter (\<lambda>p. p \<noteq> MatchPlayer.player_id player)
                    (map MatchPlayer.player_id (players team))))))
          \<and> get_match_id_for_player (registry s') (Some (MatchPlayer.player_id player)) = Some m
          \<and> get_team_id (registry s') (Some (MatchPlayer.player_id player)) = Some (team_id team)"
      by (intro conjI)
  qed
  show ?concl
    by (intro conjI ok a nw wf t r p)
qed

theorem match_start_writes_witness:
  "snd (process_event sample_lib sample_start init_state) = None
   \<and> hashes sample_state (get_game_state_key (Some ''game_1'')) ''first_blood'' = Some (RInt (- 1))
   \<and> hashes sample_state (get_game_state_key (Some ''game_1'')) ''winning_team_id'' = None
   \<and> hashes sample_state (team_key ''game_1'' ''team_2'') ''dragon_kills'' = Some (RInt 0)
   \<and> hashes sample_state (player_key ''game_1'' ''player_3'') ''alive'' = Some (RInt 0)
   \<and> hashes sample_state (player_key ''game_1'' ''player_3'') ''team_members'' = Some (RJson (JList []))
   \<and> get_team_id (registry sample_state) (Some ''player_3'') = Some ''team_2''
   \<and> get_match_id_for_team (registry sample_state) (Some ''team_2'') = Some ''game_1''"
proof -
  have h: "event_type sample_start = MATCH_START \<and> payload sample_start = MatchStartP sample_payload
      \<and> match_id sample_start = Some ''game_1''
      \<and> sample_state = fst (process_event sample_lib sample_start init_state)"
    by (simp add: sample_start_def sample_state_def)
  have sp: "start_pairs sample_payload
      = [(sample_team_1, sample_player_1), (sample_team_1, sample_player_2)] @ (sample_team_2, sample_player_3) # []"
    by (simp add: start_pairs_def sample_payload_def sample_team_1_def sample_team_2_def)
  have nl: "MatchPlayer.player_id sample_player_3 \<notin> MatchPlayer.player_id ` snd ` set []"
    by simp
  have t2: "sample_team_2 \<in> set (teams sample_payload)"
    by (simp add: sample_payload_def)
  have p3: "(sample_team_2, sample_player_3) \<in> set (start_pairs sample_payload)"
    by (simp add: sp)
  have w0: "hashes init_state (get_game_state_key (Some ''game_1'')) ''winning_team_id'' = None"
    by (simp add: init_state_def)
  note th = match_start_writes [of sample_start sample_payload "''game_1''" sample_state sample_lib init_state
      "[(sample_team_1, sample_player_1), (sample_team_1, sample_player_2)]" sample_team_2 sample_player_3 "[]",
      THEN mp, OF h]
  from th sp nl t2 p3 have
    "snd (process_event sample_lib sample_start init_state) = None
     \<and> hashes sample_state (get_game_state_key (Some ''game_1'')) ''first_blood'' = Some (RInt (- 1))
     \<and> hashes sample_state (get_game_state_key (Some ''game_1'')) ''winning_team_id''
         = hashes init_state (get_game_state_key (Some ''game_1'')) ''winning_team_id''
     \<and> hashes sample_state (team_key ''game_1'' (team_id sample_team_2)) ''dragon_kills'' = Some (RInt 0)
     \<and> hashes sample_state (player_key ''game_1'' (MatchPlayer.player_id sample_player_3)) ''alive''
         = Some (RInt (if alive sample_player_3 then 1 else 0))
     \<and> hashes sample_state (player_key ''game_1'' (MatchPlayer.player_id sample_player_3)) ''team_members''
         = Some (RJson (JList (map JStr (filter (\<lambda>p. p \<noteq> MatchPlayer.player_id sample_player_3)
               (map MatchPlayer.player_id (players sample_team_2))))))
     \<and> get_team_id (registry sample_state) (Some (MatchPlayer.player_id sample_player_3))
         = Some (team_id sample_team_2)
     \<and> get_match_id_for_team (registry sample_state) (Some (team_id (fst (sample_team_2, sample_player_3))))
         = Some ''game_1''"
    by blast
  with w0 show ?thesis
    by (simp add: sample_team_2_def sample_player_3_def)
qed

text \<open>
  The claim as it stands fails on two events. A \<open>MATCH_START\<close> with no \<open>matchID\<close> (the field is
  optional in the envelope) raises \<open>DataError\<close> at the first write, since the mapping of the
  match hash holds \<open>None\<close>, and writes nothing. And a team is registered by the registration
  of its players, so a team that lists no player is not in the registry after the event.
\<close>

theorem match_start_writes_counterexample:
  "event_type start_no_match_id = MATCH_START
   \<and> snd (process_event sample_lib start_no_match_id init_state) = Some DataError
   \<and> hashes (fst (process_event sample_lib start_no_match_id init_state))
        (get_game_state_key (match_id start_no_match_id)) ''first_blood'' = None
   \<and> event_type start_empty_team = MATCH_START
   \<and> snd (process_event sample_lib start_empty_team init_state) = None
   \<and> get_match_id_for_team (registry (fst (process_event sample_lib start_empty_team init_state)))
        (Some ''team_1'') = Some ''game_2''
   \<and> get_match_id_for_team (registry (fst (process_event sample_lib start_empty_team init_state)))
        (Some ''team_2'') = None"
  by code_simp

section \<open>The alive field\<close>

text \<open>
  Claim C9. Over any sequence of events other than \<open>MATCH_START\<close>, raised or not, the \<open>alive\<close>
  field of every hash is what it was: no processor but \<open>MatchStartProcessor\<close> writes it. So
  after the \<open>MATCH_START\<close> of a match the field of a player of the payload stays the payload's
  \<open>alive\<close>, written as 0 or 1.
\<close>

theorem alive_written_once:
  "(\<forall>e\<in>set es. event_type e \<noteq> MATCH_START) \<longrightarrow>
     hashes (fst (process_events L es s)) key ''alive'' = hashes s key ''alive''
     \<and> (event_type start = MATCH_START \<and> payload start = MatchStartP pl \<and> match_id start = Some m
          \<and> start_pairs pl = before @ (team, player) # after
          \<and> MatchPlayer.player_id player \<notin> MatchPlayer.player_id ` snd ` set after \<longrightarrow>
            hashes (fst (process_events L es (fst (process_event L start s))))
              (player_key m (MatchPlayer.player_id player)) ''alive''
              = Some (RInt (if alive player then 1 else 0)))"
proof (intro impI conjI)
  assume a: "\<forall>e\<in>set es. event_type e \<noteq> MATCH_START"
  have fr: "hashes (fst (process_events L es s0)) k ''alive'' = hashes s0 k ''alive''" for s0 k
  proof -
    have "hash_frame (\<lambda>k f. f = ''alive'') s0 (fst (process_events L es s0))"
      using a by (rule process_events_frame) (auto simp: mid_game_fields_def)
    then show ?thesis by (rule hash_frameD) simp
  qed
  show "hashes (fst (process_events L es s)) key ''alive'' = hashes s key ''alive''"
    by (rule fr)
  assume "event_type start = MATCH_START \<and> payload start = MatchStartP pl \<and> match_id start = Some m
          \<and> start_pairs pl = before @ (team, player) # after
          \<and> MatchPlayer.player_id player \<notin> MatchPlayer.player_id ` snd ` set after"
  then have "hashes (fst (process_event L start s)) (player_key m (MatchPlayer.player_id player)) ''alive''
      = Some (RInt (if alive player then 1 else 0))"
    by (intro match_start_player [THEN conjunct1]) (auto simp: player_metadata_def)
  then show "hashes (fst (process_events L es (fst (process_event L start s))))
              (player_key m (MatchPlayer.player_id player)) ''alive''
              = Some (RInt (if alive player then 1 else 0))"
    by (simp add: fr)
qed

theorem alive_written_once_witness:
  "hashes (fst (process_events sample_lib [sample_minion, sample_kill] sample_state))
     (player_key ''game_1'' ''player_3'') ''alive'' = Some (RInt 0)
   \<and> hashes (fst (process_events sample_lib [sample_minion, sample_kill] sample_state))
     (player_key ''game_1'' ''player_1'') ''alive''
     = hashes sample_state (player_key ''game_1'' ''player_1'') ''alive''"
proof -
  have t: "\<forall>e\<in>set [sample_minion, sample_kill]. event_type e \<noteq> MATCH_START"
    by (simp add: sample_minion_def sample_kill_def)
  have h: "event_type sample_start = MATCH_START \<and> payload sample_start = MatchStartP sample_payload
      \<and> match_id sample_start = Some ''game_1''
      \<and> start_pairs sample_payload
          = [(sample_team_1, sample_player_1), (sample_team_1, sample_player_2)] @ (sample_team_2, sample_player_3) # []
      \<and> MatchPlayer.player_id sample_player_3 \<notin> MatchPlayer.player_id ` snd ` set []"
    by (simp add: sample_start_def start_pairs_def sample_payload_def sample_team_1_def sample_team_2_def)
  from alive_written_once [of "[sample_minion, sample_kill]" sample_lib init_state _ sample_start sample_payload
      "''game_1''" "[(sample_team_1, sample_player_1), (sample_team_1, sample_player_2)]" sample_team_2
      sample_player_3 "[]"] t h
  have 1: "hashes (fst (process_events sample_lib [sample_minion, sample_kill]
             (fst (process_event sample_lib sample_start init_state))))
           (player_key ''game_1'' (MatchPlayer.player_id sample_player_3)) ''alive''
         = Some (RInt (if alive sample_player_3 then 1 else 0))"
    by blast
  from alive_written_once [of "[sample_minion, sample_kill]" sample_lib sample_state
      "player_key ''game_1'' ''player_1''"] t
  have 2: "hashes (fst (process_events sample_lib [sample_minion, sample_kill] sample_state))
     (player_key ''game_1'' ''player_1'') ''alive''
     = hashes sample_state (player_key ''game_1'' ''player_1'') ''alive''"
    by blast
  from 1 2 show ?thesis
    by (simp add: sample_state_def sample_player_3_def)
qed

end
